theory Spec2Isabelle
  imports Main "HOL-Library.Char_ord" "HOL-Library.List_Lexorder"
begin

section \<open>The dexsearch command of config/commands.js\<close>

text \<open>
  The command \<open>dexsearch\<close> (lines 381 to 582 of config/commands.js) is embedded as a
  function of the catalog, the host context and the raw target string. Every
  \<open>return this.sendReplyBox(...)\<close> is a value of the type \<open>message\<close>, every exception
  the JavaScript can raise is a value of \<open>exn\<close>, and a prevolution loop that never ends has
  the value \<open>None\<close>.

  Strings are lists of characters, read as the code units below 256. White space and
  case mapping are those of JavaScript on these code units.
\<close>

subsection \<open>JavaScript objects used as maps\<close>

text \<open>
  The category maps (\<open>searches['tier']\<close> and the others) are created by \<open>{}\<close>: they hold
  boolean own properties in insertion order and inherit from \<open>Object.prototype\<close>. A read
  \<open>obj[k]\<close> of a key that is no own property finds the inherited property when \<open>k\<close> names
  one, and the operator \<open>in\<close> sees inherited properties too. The loops \<open>for ... in\<close> over
  the maps of moves and abilities visit the own keys in insertion order, which is the
  order of JavaScript for keys that are no array indices.
\<close>

type_synonym jsobj = "(string \<times> bool) list"

definition object_prototype :: "string list" where
  "object_prototype =
     [''constructor'', ''toString'', ''toLocaleString'', ''valueOf'', ''hasOwnProperty'',
      ''isPrototypeOf'', ''propertyIsEnumerable'', ''__defineGetter__'', ''__defineSetter__'',
      ''__lookupGetter__'', ''__lookupSetter__'', ''__proto__'']"

datatype jsval = Undefined | JBool bool | Inherited

definition get_prop :: "jsobj \<Rightarrow> string \<Rightarrow> jsval" where
  \<comment> \<open>\<open>obj[k]\<close>\<close>
  "get_prop obj k =
     (case map_of obj k of
        Some b \<Rightarrow> JBool b
      | None \<Rightarrow> if k \<in> set object_prototype then Inherited else Undefined)"

definition truthy :: "jsval \<Rightarrow> bool" where
  \<comment> \<open>the value in a boolean position: an inherited function or object is truthy\<close>
  "truthy v = (v = JBool True \<or> v = Inherited)"

definition is_false :: "jsval \<Rightarrow> bool" where
  \<comment> \<open>\<open>v === false\<close>\<close>
  "is_false v = (v = JBool False)"

fun put_own :: "jsobj \<Rightarrow> string \<Rightarrow> bool \<Rightarrow> jsobj" where
  "put_own [] k b = [(k, b)]"
| "put_own ((k', b') # rest) k b =
     (if k' = k then (k, b) # rest else (k', b') # put_own rest k b)"

definition set_prop :: "jsobj \<Rightarrow> string \<Rightarrow> bool \<Rightarrow> jsobj" where
  \<comment> \<open>\<open>obj[k] = b\<close>: assigning a boolean to \<open>__proto__\<close> is ignored by its setter\<close>
  "set_prop obj k b = (if k = ''__proto__'' then obj else put_own obj k b)"

definition count_true :: "jsobj \<Rightarrow> nat" where
  \<comment> \<open>\<open>Object.count(obj, true)\<close>: the number of own values equal to \<open>true\<close>\<close>
  "count_true obj = length (filter snd obj)"

definition in_op :: "string \<Rightarrow> string list \<Rightarrow> bool" where
  \<comment> \<open>\<open>k in obj\<close> for an object with the own keys \<open>ks\<close>\<close>
  "in_op k ks = (k \<in> set ks \<or> k \<in> set object_prototype)"

definition obj_of :: "jsobj option \<Rightarrow> jsobj" where
  \<comment> \<open>\<open>if (!searches[cat]) searches[cat] = {}\<close>\<close>
  "obj_of o' = (case o' of None \<Rightarrow> [] | Some obj \<Rightarrow> obj)"

subsection \<open>String primitives\<close>

definition is_ws :: "char \<Rightarrow> bool" where
  \<comment> \<open>the white space of \<open>trim\<close> and \<open>parseInt\<close>, with the no-break space\<close>
  "is_ws ch =
     (ch \<in> set [CHR 0x09, CHR 0x0A, CHR 0x0B, CHR 0x0C, CHR 0x0D, CHR 0x20, CHR 0xA0])"

definition trim :: "string \<Rightarrow> string" where
  "trim s = rev (dropWhile is_ws (rev (dropWhile is_ws s)))"

definition lower_char :: "char \<Rightarrow> char" where
  \<comment> \<open>the letters A to Z, and the capital letters from 0xC0 to 0xDE (0xD7 is the
      multiplication sign)\<close>
  "lower_char ch =
     (let n = (of_char ch :: nat)
      in if (65 \<le> n \<and> n \<le> 90) \<or> (192 \<le> n \<and> n \<le> 222 \<and> n \<noteq> 215)
         then char_of (n + 32) else ch)"

definition upper_first :: "char \<Rightarrow> string option" where
  \<comment> \<open>\<open>toUpperCase\<close> of one character: the sharp s (0xDF) becomes two letters, and the
      capitals of the micro sign (0xB5) and of y with diaeresis (0xFF) are no code units
      below 256, which is \<open>None\<close>\<close>
  "upper_first ch =
     (let n = (of_char ch :: nat)
      in if (97 \<le> n \<and> n \<le> 122) \<or> (224 \<le> n \<and> n \<le> 254 \<and> n \<noteq> 247)
           then Some [char_of (n - 32)]
         else if n = 223 then Some ''SS''
         else if n = 181 \<or> n = 255 then None
         else Some [ch])"

definition toLowerCase :: "string \<Rightarrow> string" where
  "toLowerCase s = map lower_char s"

fun split_comma :: "string \<Rightarrow> string list" where
  \<comment> \<open>\<open>target.split(',')\<close>\<close>
  "split_comma [] = [[]]"
| "split_comma (ch # rest) =
     (if ch = CHR '','' then [] # split_comma rest
      else (case split_comma rest of
              [] \<Rightarrow> [[ch]]
            | w # ws \<Rightarrow> (ch # w) # ws))"

fun indexOf :: "string \<Rightarrow> string \<Rightarrow> nat option" where
  \<comment> \<open>\<open>s.indexOf(pat)\<close>, with \<open>None\<close> for \<open>-1\<close>\<close>
  "indexOf [] pat = (if pat = [] then Some 0 else None)"
| "indexOf (ch # rest) pat =
     (if take (length pat) (ch # rest) = pat then Some 0
      else map_option Suc (indexOf rest pat))"

definition slice :: "nat \<Rightarrow> nat \<Rightarrow> string \<Rightarrow> string" where
  \<comment> \<open>\<open>s.slice(a, b)\<close> for non-negative indices\<close>
  "slice a b s = take (b - a) (drop a s)"

fun join :: "string list \<Rightarrow> string" where
  \<comment> \<open>\<open>names.join(", ")\<close>\<close>
  "join [] = []"
| "join [n] = n"
| "join (n # ns) = n @ '', '' @ join ns"

text \<open>
  \<open>parseInt(s)\<close> with no radix: leading white space, a sign, then the longest prefix of
  digits (hexadecimal after \<open>0x\<close>); \<open>None\<close> is \<open>NaN\<close>. Only the comparison of the result
  with 0 and 7 is used, so the exact integer stands for the floating-point number.
\<close>

definition digit_val :: "char \<Rightarrow> nat option" where
  "digit_val ch =
     (let n = (of_char ch :: nat) in
      if 48 \<le> n \<and> n \<le> 57 then Some (n - 48)
      else if 97 \<le> n \<and> n \<le> 102 then Some (n - 87)
      else if 65 \<le> n \<and> n \<le> 70 then Some (n - 55)
      else None)"

definition is_digit :: "nat \<Rightarrow> char \<Rightarrow> bool" where
  "is_digit radix ch = (case digit_val ch of None \<Rightarrow> False | Some d \<Rightarrow> d < radix)"

definition digits_value :: "nat \<Rightarrow> string \<Rightarrow> int" where
  "digits_value radix ds =
     foldl (\<lambda>acc ch. acc * int radix + int (case digit_val ch of None \<Rightarrow> 0 | Some d \<Rightarrow> d)) 0 ds"

definition parseInt :: "string \<Rightarrow> int option" where
  "parseInt s =
     (let s1 = dropWhile is_ws s;
          neg = (take 1 s1 = ''-'');
          s2 = (if take 1 s1 = ''-'' \<or> take 1 s1 = ''+'' then drop 1 s1 else s1);
          hex = (take 2 s2 = ''0x'' \<or> take 2 s2 = ''0X'');
          radix = (if hex then 16 else 10);
          s3 = (if hex then drop 2 s2 else s2);
          ds = takeWhile (is_digit radix) s3
      in if ds = [] then None
         else Some ((if neg then - 1 else 1) * digits_value radix ds))"

subsection \<open>The catalog and the host\<close>

text \<open>
  \<open>Tools\<close> is not part of config/commands.js: its lookups and tables are parameters of
  the model. A template is what \<open>Tools.getTemplate\<close> returns, with the fields dexsearch
  reads. \<open>prevo\<close> is the empty string when there is no prevolution, \<open>learnset\<close> is the
  list of the move ids the learnset object has as own keys, and \<open>None\<close> when the template
  has no learnset. Pokedex keys are species ids, enumerated in the order of \<open>for ... in\<close>.
\<close>

record template =
  tid :: string
  species :: string
  baseSpecies :: string
  types :: "string list"
  tier :: string
  gen :: nat
  color :: string
  abilities :: "string list"
  isMega :: bool
  evos :: "string list"
  prevo :: string
  learnset :: "string list option"

record move =
  mexists :: bool
  mid :: string
  mname :: string

record ability =
  aexists :: bool
  aname :: string

record catalog =
  Pokedex :: "string list"
  getTemplate :: "string \<Rightarrow> template"
  getMove :: "string \<Rightarrow> move"
  getAbility :: "string \<Rightarrow> ability"
  TypeChart :: "string list"
  lc_banlist :: "string list"
  escapeHTML :: "string \<Rightarrow> string"

text \<open>
  The host: what \<open>this.canBroadcast()\<close> returns, the flag \<open>this.broadcasting\<close>, the
  contents of \<open>results\<close> after \<open>results.randomize()\<close>, and the binding of the identifier
  \<open>string\<close> called at line 576, which config/commands.js declares nowhere (\<open>None\<close> when it
  is unbound, as it is among the globals of JavaScript).
\<close>

record host =
  canBroadcast :: bool
  broadcasting :: bool
  randomize :: "string list \<Rightarrow> string list"
  string_global :: "(int \<Rightarrow> string) option"

subsection \<open>Replies, exceptions and outcomes\<close>

datatype category = Ability | Tier | Color | Generation | Mega | FullyEvolved | Move | Type

datatype message =
    OnlyOneAbility          \<comment> \<open>Specify only one ability.\<close>
  | CannotBoth category     \<comment> \<open>A search cannot both exclude and include ...\<close>
  | AllNotBroadcast         \<comment> \<open>A search with the parameter 'all' cannot be broadcast.\<close>
  | MaxFourMoves            \<comment> \<open>Specify a maximum of 4 moves.\<close>
  | MaxTwoTypes             \<comment> \<open>Specify a maximum of two types.\<close>
  | NotInAnyCategory string \<comment> \<open>'...' could not be found in any of the search categories.\<close>
  | NoSearchParameters      \<comment> \<open>No search parameters other than 'all' were found. ...\<close>
  | NotAKnownMove string    \<comment> \<open>'...' is not a known move.\<close>
  | Names string            \<comment> \<open>the sorted names, joined\<close>
  | AndMore string string   \<comment> \<open>names, ", and ", count, " more. Redo the search with 'all' ..."\<close>
  | NoPokemonFound          \<comment> \<open>No Pokemon found.\<close>

datatype exn = TypeError | ReferenceError

datatype outcome =
    Silent                  \<comment> \<open>\<open>if (!this.canBroadcast()) return;\<close>\<close>
  | ParseHelp               \<comment> \<open>\<open>this.parse('/help dexsearch')\<close>\<close>
  | ReplyBox message
  | Throws exn

datatype 'a result = Ok 'a | Return message | Throw exn

subsection \<open>Reading the targets\<close>

record pstate =
  s_ability :: "jsobj option"
  s_tier :: "jsobj option"
  s_color :: "jsobj option"
  s_gen :: "jsobj option"
  s_moves :: "jsobj option"
  s_types :: "jsobj option"
  showAll :: bool
  megaSearch :: "bool option"
  feSearch :: "bool option"

definition init_pstate :: pstate where
  "init_pstate =
     \<lparr>s_ability = None, s_tier = None, s_color = None, s_gen = None, s_moves = None,
      s_types = None, showAll = False, megaSearch = None, feSearch = None\<rparr>"

definition allTiers :: "string list" where
  "allTiers = [''uber'', ''ou'', ''uu'', ''lc'', ''cap'', ''bl'', ''bl2'', ''ru'', ''bl3'', ''nu'']"

definition allColours :: "string list" where
  "allColours = [''green'', ''red'', ''blue'', ''white'', ''brown'', ''yellow'', ''purple'',
                 ''pink'', ''gray'', ''black'']"

definition "output" :: nat where
  "output = 10"

definition conflict :: "jsobj \<Rightarrow> string \<Rightarrow> bool \<Rightarrow> bool" where
  \<comment> \<open>\<open>(obj[k] && isNotSearch) || (obj[k] === false && !isNotSearch)\<close>\<close>
  "conflict obj k isNotSearch =
     ((truthy (get_prop obj k) \<and> isNotSearch) \<or> (is_false (get_prop obj k) \<and> \<not> isNotSearch))"

definition flag_conflict :: "bool option \<Rightarrow> bool \<Rightarrow> bool" where
  \<comment> \<open>\<open>(flag && isNotSearch) || (flag === false && !isNotSearch)\<close>\<close>
  "flag_conflict flag isNotSearch =
     ((flag = Some True \<and> isNotSearch) \<or> (flag = Some False \<and> \<not> isNotSearch))"

text \<open>
  One iteration of the loop over \<open>targets\<close> first finds the branch of the token, in the
  order of the source, and then runs the checks and the assignment of that branch. The
  branch depends on the token and the catalog alone, so it is a function of its own.
  An unknown token carries the text of the reply of line 473, \<open>Tools.escapeHTML(target)\<close>.
  A type token whose first character has its capital outside the code units below 256
  names no type of the chart, whose keys are strings of the model; the text of its reply
  is then that of the token before the capital was taken.
\<close>

datatype request =
    Req category string bool   \<comment> \<open>category, key, \<open>isNotSearch\<close>\<close>
  | ReqAll
  | ReqUnknown string

definition isNot_of :: "string \<Rightarrow> bool" where
  "isNot_of raw = (take 1 (toLowerCase (trim raw)) = ''!'')"

definition target_of :: "string \<Rightarrow> string" where
  "target_of raw =
     (let t = toLowerCase (trim raw) in if take 1 t = ''!'' then drop 1 t else t)"

definition type_target :: "string \<Rightarrow> string option" where
  \<comment> \<open>\<open>target.charAt(0).toUpperCase() + target.slice(1, target.indexOf(' type'))\<close>;
      \<open>None\<close> when the first character has its capital outside the code units below 256\<close>
  "type_target target =
     map_option
       (\<lambda>first. first @
          slice 1 (case indexOf target '' type'' of None \<Rightarrow> 0 | Some i \<Rightarrow> i) target)
       (case target of [] \<Rightarrow> Some [] | ch # rest \<Rightarrow> upper_first ch)"

definition classify :: "catalog \<Rightarrow> string \<Rightarrow> request" where
  "classify c raw =
     (let isNotSearch = isNot_of raw;
          target = target_of raw;
          targetAbility = getAbility c raw;
          targetInt = parseInt target;
          targetMove = getMove c target
      in if aexists targetAbility then Req Ability (aname targetAbility) isNotSearch
         else if in_op target allTiers then Req Tier target isNotSearch
         else if in_op target allColours then Req Color target isNotSearch
         else if (case targetInt of None \<Rightarrow> False | Some n \<Rightarrow> 0 < n \<and> n < 7)
           then Req Generation target isNotSearch
         else if target = ''all'' then ReqAll
         else if target = ''megas'' \<or> target = ''mega'' then Req Mega [] isNotSearch
         else if target = ''fe'' \<or> target = ''fullyevolved'' then Req FullyEvolved [] isNotSearch
         else if target = ''nfe'' \<or> target = ''notfullyevolved''
           then Req FullyEvolved [] (\<not> isNotSearch)
         else if mexists targetMove then Req Move (mname targetMove) isNotSearch
         else if indexOf target '' type'' \<noteq> None then
           (case type_target target of
              Some typ \<Rightarrow>
                if in_op typ (TypeChart c) then Req Type typ isNotSearch
                else ReqUnknown (escapeHTML c typ)
            | None \<Rightarrow> ReqUnknown (escapeHTML c target))
         else ReqUnknown (escapeHTML c target))"

definition apply_request :: "host \<Rightarrow> pstate \<Rightarrow> request \<Rightarrow> message + pstate" where
  "apply_request h st r =
     (case r of
        ReqUnknown target \<Rightarrow> Inl (NotInAnyCategory target)
      | ReqAll \<Rightarrow>
          if broadcasting h then Inl AllNotBroadcast else Inr (st\<lparr>showAll := True\<rparr>)
      | Req cat k isNotSearch \<Rightarrow>
          (case cat of
             Ability \<Rightarrow>
               if count_true (obj_of (s_ability st)) = 1 \<and> \<not> isNotSearch
                 then Inl OnlyOneAbility
               else if conflict (obj_of (s_ability st)) k isNotSearch
                 then Inl (CannotBoth Ability)
               else Inr (st\<lparr>s_ability :=
                           Some (set_prop (obj_of (s_ability st)) k (\<not> isNotSearch))\<rparr>)
           | Tier \<Rightarrow>
               if conflict (obj_of (s_tier st)) k isNotSearch then Inl (CannotBoth Tier)
               else Inr (st\<lparr>s_tier := Some (set_prop (obj_of (s_tier st)) k (\<not> isNotSearch))\<rparr>)
           | Color \<Rightarrow>
               if conflict (obj_of (s_color st)) k isNotSearch then Inl (CannotBoth Color)
               else Inr (st\<lparr>s_color :=
                           Some (set_prop (obj_of (s_color st)) k (\<not> isNotSearch))\<rparr>)
           | Generation \<Rightarrow>
               if conflict (obj_of (s_gen st)) k isNotSearch then Inl (CannotBoth Generation)
               else Inr (st\<lparr>s_gen := Some (set_prop (obj_of (s_gen st)) k (\<not> isNotSearch))\<rparr>)
           | Mega \<Rightarrow>
               if flag_conflict (megaSearch st) isNotSearch then Inl (CannotBoth Mega)
               else Inr (st\<lparr>megaSearch := Some (\<not> isNotSearch)\<rparr>)
           | FullyEvolved \<Rightarrow>
               if flag_conflict (feSearch st) isNotSearch then Inl (CannotBoth FullyEvolved)
               else Inr (st\<lparr>feSearch := Some (\<not> isNotSearch)\<rparr>)
           | Move \<Rightarrow>
               if count_true (obj_of (s_moves st)) = 4 \<and> \<not> isNotSearch
                 then Inl MaxFourMoves
               else if conflict (obj_of (s_moves st)) k isNotSearch
                 then Inl (CannotBoth Move)
               else Inr (st\<lparr>s_moves :=
                           Some (set_prop (obj_of (s_moves st)) k (\<not> isNotSearch))\<rparr>)
           | Type \<Rightarrow>
               if count_true (obj_of (s_types st)) = 2 \<and> \<not> isNotSearch
                 then Inl MaxTwoTypes
               else if conflict (obj_of (s_types st)) k isNotSearch
                 then Inl (CannotBoth Type)
               else Inr (st\<lparr>s_types :=
                           Some (set_prop (obj_of (s_types st)) k (\<not> isNotSearch))\<rparr>)))"

fun read_targets :: "catalog \<Rightarrow> host \<Rightarrow> pstate \<Rightarrow> string list \<Rightarrow> message + pstate" where
  \<comment> \<open>\<open>for (var i in targets) { ... }\<close>, leaving at the first \<open>return\<close>\<close>
  "read_targets c h st [] = Inr st"
| "read_targets c h st (raw # rest) =
     (case apply_request h st (classify c raw) of
        Inl m \<Rightarrow> Inl m
      | Inr st' \<Rightarrow> read_targets c h st' rest)"

definition size_searches :: "pstate \<Rightarrow> nat" where
  \<comment> \<open>\<open>Object.size(searches)\<close>\<close>
  "size_searches st =
     length (filter (\<lambda>o'. o' \<noteq> None)
       [s_ability st, s_tier st, s_color st, s_gen st, s_moves st, s_types st])"

subsection \<open>The base scan\<close>

definition megaSearchResult :: "pstate \<Rightarrow> template \<Rightarrow> bool" where
  "megaSearchResult st t =
     (megaSearch st = None \<or> (megaSearch st = Some True \<and> isMega t) \<or>
      (megaSearch st = Some False \<and> \<not> isMega t))"

definition feSearchResult :: "pstate \<Rightarrow> template \<Rightarrow> bool" where
  "feSearchResult st t =
     (feSearch st = None \<or> (feSearch st = Some True \<and> length (evos t) = 0) \<or>
      (feSearch st = Some False \<and> length (evos t) \<noteq> 0))"

definition cap_requested :: "pstate \<Rightarrow> bool" where
  \<comment> \<open>\<open>searches['tier'] && searches['tier']['cap']\<close>\<close>
  "cap_requested st =
     (case s_tier st of None \<Rightarrow> False | Some obj \<Rightarrow> truthy (get_prop obj ''cap''))"

definition admitted :: "pstate \<Rightarrow> template \<Rightarrow> bool" where
  "admitted st t =
     (tier t \<noteq> ''Unreleased'' \<and> tier t \<noteq> ''Illegal'' \<and>
      (tier t \<noteq> ''CAP'' \<or> cap_requested st) \<and>
      megaSearchResult st t \<and> feSearchResult st t)"

type_synonym dex = "(string \<times> template) list"

definition base_dex :: "catalog \<Rightarrow> pstate \<Rightarrow> dex" where
  \<comment> \<open>\<open>for (var pokemon in Tools.data.Pokedex) { ... dex[pokemon] = template; }\<close>\<close>
  "base_dex c st =
     filter (\<lambda>(pokemon, t). admitted st t) (map (\<lambda>pokemon. (pokemon, getTemplate c pokemon)) (Pokedex c))"

subsection \<open>The category filters\<close>

definition type_slot :: "template \<Rightarrow> nat \<Rightarrow> string" where
  \<comment> \<open>\<open>types[i]\<close> as a property key: a missing slot is the key \<open>undefined\<close>\<close>
  "type_slot t i = (if i < length (types t) then types t ! i else ''undefined'')"

definition types_deleted :: "jsobj \<Rightarrow> template \<Rightarrow> bool" where
  "types_deleted obj t =
     (if count_true obj = 2 then
        \<not> (truthy (get_prop obj (type_slot t 0)) \<and> truthy (get_prop obj (type_slot t 1)))
      else
        (is_false (get_prop obj (type_slot t 0)) \<or> is_false (get_prop obj (type_slot t 1)) \<or>
         (count_true obj > 0 \<and>
          \<not> (truthy (get_prop obj (type_slot t 0)) \<or> truthy (get_prop obj (type_slot t 1))))))"

definition isLC :: "catalog \<Rightarrow> template \<Rightarrow> bool" where
  \<comment> \<open>line 508\<close>
  "isLC c t = (length (evos t) > 0 \<and> prevo t = [] \<and> species t \<notin> set (lc_banlist c))"

definition listed_deleted :: "jsobj \<Rightarrow> string \<Rightarrow> bool" where
  \<comment> \<open>lines 514 to 516 and 523 to 525, for the key \<open>String(dex[mon][search]).toLowerCase()\<close>\<close>
  "listed_deleted obj k =
     (if is_false (get_prop obj k) then True
      else (count_true obj > 0 \<and> \<not> truthy (get_prop obj k)))"

definition tier_deleted :: "catalog \<Rightarrow> jsobj \<Rightarrow> template \<Rightarrow> bool" where
  "tier_deleted c obj t =
     (if in_op ''lc'' (map fst obj) \<and>
         ((truthy (get_prop obj ''lc'') \<and> \<not> isLC c t) \<or>
          (\<not> truthy (get_prop obj ''lc'') \<and> isLC c t))
      then True
      else listed_deleted obj (toLowerCase (tier t)))"

fun string_of_nat :: "nat \<Rightarrow> string" where
  \<comment> \<open>\<open>String(n)\<close> for a non-negative integer\<close>
  "string_of_nat n =
     (if n < 10 then [char_of (48 + n)] else string_of_nat (n div 10) @ [char_of (48 + n mod 10)])"

declare string_of_nat.simps [simp del]

definition gen_deleted :: "jsobj \<Rightarrow> template \<Rightarrow> bool" where
  "gen_deleted obj t = listed_deleted obj (toLowerCase (string_of_nat (gen t)))"

definition color_deleted :: "jsobj \<Rightarrow> template \<Rightarrow> bool" where
  "color_deleted obj t = listed_deleted obj (toLowerCase (color t))"

definition ability_deleted :: "jsobj \<Rightarrow> template \<Rightarrow> bool" where
  \<comment> \<open>some searched ability has \<open>hasAbility !== needsAbility\<close>\<close>
  "ability_deleted obj t =
     list_ex (\<lambda>ability. JBool (ability \<in> set (abilities t)) \<noteq> get_prop obj ability) (map fst obj)"

subsection \<open>The move filter\<close>

definition learnset_has :: "string list \<Rightarrow> string \<Rightarrow> bool" where
  \<comment> \<open>\<open>learnset[id]\<close> in a boolean position\<close>
  "learnset_has ls m = (m \<in> set ls \<or> m \<in> set object_prototype)"

partial_function (option) prevo_walk :: "catalog \<Rightarrow> string \<Rightarrow> template \<Rightarrow> template option" where
  \<comment> \<open>the loop of lines 550 to 552, from \<open>prevoTemp\<close> to the \<open>prevoTemp\<close> it ends with\<close>
  "prevo_walk c m prevoTemp =
     (if prevo prevoTemp \<noteq> [] \<and>
         (case learnset prevoTemp of None \<Rightarrow> False | Some ls \<Rightarrow> \<not> learnset_has ls m)
      then prevo_walk c m (getTemplate c (prevo prevoTemp))
      else Some prevoTemp)"

declare prevo_walk.simps [code]

definition sketch_excluded :: "string list" where
  "sketch_excluded = [''chatter'', ''struggle'', ''magikarpsrevenge'']"

definition canLearn :: "template \<Rightarrow> string \<Rightarrow> bool result" where
  \<comment> \<open>line 553; reading \<open>.sketch\<close> of a missing learnset is a TypeError\<close>
  "canLearn prevoTemp m =
     (case learnset prevoTemp of
        None \<Rightarrow> Throw TypeError
      | Some ls \<Rightarrow>
          Ok ((''sketch'' \<in> set ls \<and> \<not> in_op m sketch_excluded) \<or> learnset_has ls m))"

fun moves_loop ::
  "catalog \<Rightarrow> template \<Rightarrow> jsobj \<Rightarrow> string list \<Rightarrow> bool \<Rightarrow> bool result option" where
  \<comment> \<open>\<open>for (var i in searches[search]) { ... }\<close> for one species; the flag says whether
      \<open>dex[mon]\<close> has been deleted\<close>
  "moves_loop c template obj [] deleted = Some (Ok deleted)"
| "moves_loop c template obj (i # rest) deleted =
     (if \<not> mexists (getMove c i) then Some (Return (NotAKnownMove i))
      else
        (case prevo_walk c (mid (getMove c i)) (getTemplate c (tid template)) of
           None \<Rightarrow> None
         | Some prevoTemp \<Rightarrow>
             (case canLearn prevoTemp (mid (getMove c i)) of
                Throw e \<Rightarrow> Some (Throw e)
              | Return msg \<Rightarrow> Some (Return msg)
              | Ok can \<Rightarrow>
                  moves_loop c template obj rest
                    (deleted \<or> (\<not> can \<and> truthy (get_prop obj i)) \<or>
                     (is_false (get_prop obj i) \<and> can)))))"

definition moves_template :: "catalog \<Rightarrow> template \<Rightarrow> template" where
  \<comment> \<open>lines 543 and 544\<close>
  "moves_template c t =
     (let template = getTemplate c (tid t)
      in if learnset template = None then getTemplate c (baseSpecies template) else template)"

fun moves_filter :: "catalog \<Rightarrow> jsobj \<Rightarrow> dex \<Rightarrow> dex result option" where
  "moves_filter c obj [] = Some (Ok [])"
| "moves_filter c obj ((mon, t) # rest) =
     (case (if learnset (moves_template c t) = None then Some (Ok False)
            else moves_loop c (moves_template c t) obj (map fst obj) False) of
        None \<Rightarrow> None
      | Some (Throw e) \<Rightarrow> Some (Throw e)
      | Some (Return msg) \<Rightarrow> Some (Return msg)
      | Some (Ok deleted) \<Rightarrow>
          (case moves_filter c obj rest of
             None \<Rightarrow> None
           | Some (Throw e) \<Rightarrow> Some (Throw e)
           | Some (Return msg) \<Rightarrow> Some (Return msg)
           | Some (Ok rest') \<Rightarrow> Some (Ok (if deleted then rest' else (mon, t) # rest'))))"

subsection \<open>The pipeline and the reply\<close>

definition pure_filters :: "catalog \<Rightarrow> pstate \<Rightarrow> dex \<Rightarrow> dex" where
  \<comment> \<open>the categories after \<open>moves\<close>, in the order types, ability, tier, gen, color\<close>
  "pure_filters c st d =
     (let d1 = (case s_types st of None \<Rightarrow> d
                | Some obj \<Rightarrow> filter (\<lambda>(mon, t). \<not> types_deleted obj t) d);
          d2 = (case s_ability st of None \<Rightarrow> d1
                | Some obj \<Rightarrow> filter (\<lambda>(mon, t). \<not> ability_deleted obj t) d1);
          d3 = (case s_tier st of None \<Rightarrow> d2
                | Some obj \<Rightarrow> filter (\<lambda>(mon, t). \<not> tier_deleted c obj t) d2);
          d4 = (case s_gen st of None \<Rightarrow> d3
                | Some obj \<Rightarrow> filter (\<lambda>(mon, t). \<not> gen_deleted obj t) d3)
      in (case s_color st of None \<Rightarrow> d4
          | Some obj \<Rightarrow> filter (\<lambda>(mon, t). \<not> color_deleted obj t) d4))"

definition search_dex :: "catalog \<Rightarrow> pstate \<Rightarrow> dex result option" where
  "search_dex c st =
     (case (case s_moves st of None \<Rightarrow> Some (Ok (base_dex c st))
            | Some obj \<Rightarrow> moves_filter c obj (base_dex c st)) of
        None \<Rightarrow> None
      | Some (Throw e) \<Rightarrow> Some (Throw e)
      | Some (Return msg) \<Rightarrow> Some (Return msg)
      | Some (Ok d) \<Rightarrow> Some (Ok (pure_filters c st d)))"

definition family_results :: "catalog \<Rightarrow> dex \<Rightarrow> string list" where
  \<comment> \<open>lines 564 to 568\<close>
  "family_results c d =
     (let results = map (\<lambda>(speciesid, t). species t) d
      in filter (\<lambda>sp. \<not> (sp \<noteq> baseSpecies (getTemplate c sp) \<and>
                          baseSpecies (getTemplate c sp) \<in> set results)) results)"

definition format_results :: "host \<Rightarrow> bool \<Rightarrow> string list \<Rightarrow> outcome" where
  \<comment> \<open>lines 569 to 581\<close>
  "format_results h all results =
     (if length results > 0 then
        (if all \<or> length results \<le> output then ReplyBox (Names (join (sort results)))
         else
           (case string_global h of
              None \<Rightarrow> Throws ReferenceError
            | Some string \<Rightarrow>
                ReplyBox (AndMore (join (take 10 (randomize h results)))
                                  (string (int (length results) - int output)))))
      else ReplyBox NoPokemonFound)"

definition dexsearch :: "catalog \<Rightarrow> host \<Rightarrow> string \<Rightarrow> outcome option" where
  "dexsearch c h target =
     (if \<not> canBroadcast h then Some Silent
      else if target = [] then Some ParseHelp
      else
        (case read_targets c h init_pstate (split_comma target) of
           Inl msg \<Rightarrow> Some (ReplyBox msg)
         | Inr st \<Rightarrow>
             if showAll st \<and> size_searches st = 0 \<and> megaSearch st = None \<and> feSearch st = None
               then Some (ReplyBox NoSearchParameters)
             else
               (case search_dex c st of
                  None \<Rightarrow> None
                | Some (Throw e) \<Rightarrow> Some (Throws e)
                | Some (Return msg) \<Rightarrow> Some (ReplyBox msg)
                | Some (Ok d) \<Rightarrow>
                    Some (format_results h (showAll st) (family_results c d)))))"

subsection \<open>Notions used to state the properties\<close>

text \<open>
  The prevolution back-references of a catalog: the pairs of a template that the catalog
  returns and that names a prevolution, and the template of that prevolution. A species
  looked up under several spellings is one template, so a catalog of finitely many
  species has finitely many back-references.
\<close>

definition prevo_links :: "catalog \<Rightarrow> (template \<times> template) set" where
  "prevo_links c =
     {(p, t). t \<in> range (getTemplate c) \<and> prevo t \<noteq> [] \<and> p = getTemplate c (prevo t)}"

text \<open>
  The walk goes on from a link: the link has a prevolution, has a learnset, and the
  learnset lacks the move (a move id named like a property of \<open>Object.prototype\<close> is
  read as had). The step of the walk leads from such a link to the template of its
  prevolution.
\<close>

definition walks_on :: "string \<Rightarrow> template \<Rightarrow> bool" where
  "walks_on m link =
     (prevo link \<noteq> [] \<and>
      (\<exists>ls. learnset link = Some ls \<and> m \<notin> set ls \<and> m \<notin> set object_prototype))"

definition walk_step :: "catalog \<Rightarrow> string \<Rightarrow> (template \<times> template) set" where
  "walk_step c m = {(link, next). walks_on m link \<and> next = getTemplate c (prevo link)}"

text \<open>The deletions of the categories ability, tier, gen and color for a template.\<close>

definition others_deleted :: "catalog \<Rightarrow> pstate \<Rightarrow> template \<Rightarrow> bool" where
  "others_deleted c st t =
     ((case s_ability st of None \<Rightarrow> False | Some obj \<Rightarrow> ability_deleted obj t) \<or>
      (case s_tier st of None \<Rightarrow> False | Some obj \<Rightarrow> tier_deleted c obj t) \<or>
      (case s_gen st of None \<Rightarrow> False | Some obj \<Rightarrow> gen_deleted obj t) \<or>
      (case s_color st of None \<Rightarrow> False | Some obj \<Rightarrow> color_deleted obj t))"

text \<open>
  What a state of the loop over \<open>targets\<close> holds for a category: the object of the
  category, and whether a key is held with a polarity (\<open>isNotSearch\<close> as in the source, so
  \<open>True\<close> is an exclusion).
\<close>

definition cat_obj :: "pstate \<Rightarrow> category \<Rightarrow> jsobj" where
  "cat_obj st cat =
     (case cat of
        Ability \<Rightarrow> obj_of (s_ability st)
      | Tier \<Rightarrow> obj_of (s_tier st)
      | Color \<Rightarrow> obj_of (s_color st)
      | Generation \<Rightarrow> obj_of (s_gen st)
      | Move \<Rightarrow> obj_of (s_moves st)
      | Type \<Rightarrow> obj_of (s_types st)
      | Mega \<Rightarrow> []
      | FullyEvolved \<Rightarrow> [])"

definition polar :: "jsobj \<Rightarrow> string \<Rightarrow> bool \<Rightarrow> bool" where
  "polar obj k isNotSearch =
     (if isNotSearch then is_false (get_prop obj k) else truthy (get_prop obj k))"

definition holds :: "pstate \<Rightarrow> category \<Rightarrow> string \<Rightarrow> bool \<Rightarrow> bool" where
  "holds st cat k isNotSearch =
     (case cat of
        Mega \<Rightarrow> megaSearch st = Some (\<not> isNotSearch)
      | FullyEvolved \<Rightarrow> feSearch st = Some (\<not> isNotSearch)
      | _ \<Rightarrow> polar (cat_obj st cat) k isNotSearch)"

text \<open>
  The cardinality guards of lines 405, 457 and 467, which stand before the conflict check
  of their branch.
\<close>

definition cap_reached :: "pstate \<Rightarrow> category \<Rightarrow> bool \<Rightarrow> bool" where
  "cap_reached st cat isNotSearch =
     (\<not> isNotSearch \<and>
      ((cat = Ability \<and> count_true (obj_of (s_ability st)) = 1) \<or>
       (cat = Move \<and> count_true (obj_of (s_moves st)) = 4) \<or>
       (cat = Type \<and> count_true (obj_of (s_types st)) = 2)))"







subsection \<open>Sample catalogs\<close>

definition blank :: template where
  "blank =
     \<lparr>tid = [], species = [], baseSpecies = [], types = [], tier = ''Illegal'', gen = 0,
      color = [], abilities = [], isMega = False, evos = [], prevo = [], learnset = None\<rparr>"

definition escape_html :: "string \<Rightarrow> string" where
  "escape_html s =
     concat (map (\<lambda>ch. if ch = CHR ''&'' then ''&amp;''
                         else if ch = CHR ''<'' then ''&lt;''
                         else if ch = CHR ''>'' then ''&gt;''
                         else if ch = CHR 0x22 then ''&quot;''
                         else [ch]) s)"

definition no_move :: "string \<Rightarrow> move" where
  "no_move s = \<lparr>mexists = False, mid = toLowerCase s, mname = s\<rparr>"

definition no_ability :: "string \<Rightarrow> ability" where
  "no_ability s = \<lparr>aexists = False, aname = s\<rparr>"

definition private_host :: host where
  "private_host =
     \<lparr>canBroadcast = True, broadcasting = False, randomize = (\<lambda>rs. rs),
      string_global = None\<rparr>"

definition broadcast_host :: host where
  "broadcast_host =
     \<lparr>canBroadcast = True, broadcasting = True, randomize = (\<lambda>rs. rs),
      string_global = None\<rparr>"

text \<open>A family with a prevolution chain, and a species with no learnset at all.\<close>

definition bulbasaur :: template where
  "bulbasaur =
     blank\<lparr>tid := ''bulbasaur'', species := ''Bulbasaur'', baseSpecies := ''Bulbasaur'',
       types := [''Grass'', ''Poison''], tier := ''LC'', gen := 1, color := ''Green'',
       abilities := [''Overgrow''], evos := [''ivysaur''],
       learnset := Some [''tackle'', ''growl'']\<rparr>"

definition ivysaur :: template where
  "ivysaur =
     blank\<lparr>tid := ''ivysaur'', species := ''Ivysaur'', baseSpecies := ''Ivysaur'',
       types := [''Grass'', ''Poison''], tier := ''NFE'', gen := 1, color := ''Green'',
       abilities := [''Overgrow''], evos := [''venusaur''], prevo := ''bulbasaur'',
       learnset := Some [''razorleaf'']\<rparr>"

definition eggy :: template where
  "eggy =
     blank\<lparr>tid := ''eggy'', species := ''Eggy'', baseSpecies := ''Eggy'',
       types := [''Normal''], tier := ''OU'', gen := 1, color := ''White''\<rparr>"

definition family_moves :: "string \<Rightarrow> move" where
  "family_moves s =
     (if toLowerCase s = ''tackle'' then \<lparr>mexists = True, mid = ''tackle'', mname = ''Tackle''\<rparr>
      else if toLowerCase s = ''growl'' then \<lparr>mexists = True, mid = ''growl'', mname = ''Growl''\<rparr>
      else if toLowerCase s = ''sketch'' then \<lparr>mexists = True, mid = ''sketch'', mname = ''Sketch''\<rparr>
      else no_move s)"

definition family_catalog :: catalog where
  "family_catalog =
     \<lparr>Pokedex = [''bulbasaur'', ''ivysaur'', ''eggy''],
      getTemplate = (\<lambda>s. if s = ''bulbasaur'' \<or> s = ''Bulbasaur'' then bulbasaur
                          else if s = ''ivysaur'' \<or> s = ''Ivysaur'' then ivysaur
                          else if s = ''eggy'' \<or> s = ''Eggy'' then eggy
                          else blank\<lparr>tid := toLowerCase s, species := s, baseSpecies := s\<rparr>),
      getMove = family_moves,
      getAbility = no_ability,
      TypeChart = [''Grass'', ''Poison'', ''Normal''],
      lc_banlist = [],
      escapeHTML = escape_html\<rparr>"

text \<open>Species of the synthetic tiers beside a released one.\<close>

definition tier_catalog :: catalog where
  "tier_catalog =
     \<lparr>Pokedex = [''pikachu'', ''floette'', ''missingno'', ''syclant''],
      getTemplate = (\<lambda>s.
        if s = ''pikachu'' \<or> s = ''Pikachu''
          then blank\<lparr>tid := ''pikachu'', species := ''Pikachu'', baseSpecies := ''Pikachu'',
                 types := [''Electric''], tier := ''NU'', gen := 1, color := ''Yellow''\<rparr>
        else if s = ''floette'' \<or> s = ''Floette''
          then blank\<lparr>tid := ''floette'', species := ''Floette'', baseSpecies := ''Floette'',
                 types := [''Fairy''], tier := ''Unreleased'', gen := 6, color := ''White''\<rparr>
        else if s = ''missingno'' \<or> s = ''Missingno''
          then blank\<lparr>tid := ''missingno'', species := ''Missingno'', baseSpecies := ''Missingno'',
                 types := [''Bird'', ''Normal''], tier := ''Illegal'', gen := 1, color := ''Gray''\<rparr>
        else if s = ''syclant'' \<or> s = ''Syclant''
          then blank\<lparr>tid := ''syclant'', species := ''Syclant'', baseSpecies := ''Syclant'',
                 types := [''Ice'', ''Bug''], tier := ''CAP'', gen := 4, color := ''Blue''\<rparr>
        else blank\<lparr>tid := toLowerCase s, species := s, baseSpecies := s\<rparr>),
      getMove = no_move,
      getAbility = no_ability,
      TypeChart = [''Electric'', ''Fairy'', ''Bird'', ''Normal'', ''Ice'', ''Bug''],
      lc_banlist = [],
      escapeHTML = escape_html\<rparr>"

text \<open>
  Two species that are legal in LC by the criteria of line 508; one of them is stored in
  another tier.
\<close>

definition ferroseed :: template where
  "ferroseed =
     blank\<lparr>tid := ''ferroseed'', species := ''Ferroseed'', baseSpecies := ''Ferroseed'',
       types := [''Grass'', ''Steel''], tier := ''NU'', gen := 5, color := ''Gray'',
       abilities := [''Iron Barbs''], evos := [''ferrothorn''],
       learnset := Some [''tackle'']\<rparr>"

definition lc_catalog :: catalog where
  "lc_catalog =
     \<lparr>Pokedex = [''ferroseed'', ''bulbasaur''],
      getTemplate = (\<lambda>s. if s = ''ferroseed'' \<or> s = ''Ferroseed'' then ferroseed
                          else if s = ''bulbasaur'' \<or> s = ''Bulbasaur'' then bulbasaur
                          else blank\<lparr>tid := toLowerCase s, species := s, baseSpecies := s\<rparr>),
      getMove = no_move,
      getAbility = no_ability,
      TypeChart = [''Grass'', ''Steel'', ''Poison''],
      lc_banlist = [],
      escapeHTML = escape_html\<rparr>"

text \<open>Eleven species of one tier.\<close>

definition plain :: "string \<Rightarrow> string \<Rightarrow> template" where
  "plain i n =
     blank\<lparr>tid := i, species := n, baseSpecies := n, types := [''Normal''], tier := ''OU'',
       gen := 1, color := ''Brown''\<rparr>"

definition many_table :: "(string \<times> template) list" where
  "many_table =
     [(''abra'', plain ''abra'' ''Abra''), (''bidoof'', plain ''bidoof'' ''Bidoof''),
      (''cubone'', plain ''cubone'' ''Cubone''), (''ditto'', plain ''ditto'' ''Ditto''),
      (''eevee'', plain ''eevee'' ''Eevee''), (''furret'', plain ''furret'' ''Furret''),
      (''golem'', plain ''golem'' ''Golem''), (''hypno'', plain ''hypno'' ''Hypno''),
      (''inkay'', plain ''inkay'' ''Inkay''), (''jynx'', plain ''jynx'' ''Jynx''),
      (''kabuto'', plain ''kabuto'' ''Kabuto'')]"

definition many_catalog :: catalog where
  "many_catalog =
     \<lparr>Pokedex = map fst many_table,
      getTemplate = (\<lambda>s.
        case map_of (many_table @ map (\<lambda>(i, t). (species t, t)) many_table) s of
          Some t \<Rightarrow> t
        | None \<Rightarrow> blank\<lparr>tid := toLowerCase s, species := s, baseSpecies := s\<rparr>),
      getMove = no_move,
      getAbility = no_ability,
      TypeChart = [''Normal''],
      lc_banlist = [],
      escapeHTML = escape_html\<rparr>"

definition decimal :: "int \<Rightarrow> string" where
  \<comment> \<open>the conversion \<open>String(n)\<close> of an integer\<close>
  "decimal n = (if n < 0 then ''-'' @ string_of_nat (nat (- n)) else string_of_nat (nat n))"

definition decimal_host :: host where
  \<comment> \<open>a host in which the identifier \<open>string\<close> is bound to that conversion\<close>
  "decimal_host =
     \<lparr>canBroadcast = True, broadcasting = False, randomize = (\<lambda>rs. rs),
      string_global = Some decimal\<rparr>"

text \<open>A species whose prevolution has no learnset.\<close>

definition orphan :: template where
  "orphan =
     blank\<lparr>tid := ''orphan'', species := ''Orphan'', baseSpecies := ''Orphan'',
       types := [''Normal''], tier := ''OU'', gen := 1, color := ''Brown'',
       prevo := ''eggy'', learnset := Some [''tackle'']\<rparr>"

definition orphan_catalog :: catalog where
  "orphan_catalog =
     \<lparr>Pokedex = [''orphan'', ''eggy''],
      getTemplate = (\<lambda>s. if s = ''orphan'' \<or> s = ''Orphan'' then orphan
                          else if s = ''eggy'' \<or> s = ''Eggy'' then eggy
                          else blank\<lparr>tid := toLowerCase s, species := s, baseSpecies := s\<rparr>),
      getMove = family_moves,
      getAbility = no_ability,
      TypeChart = [''Normal''],
      lc_banlist = [],
      escapeHTML = escape_html\<rparr>"

text \<open>A species whose two type slots hold the same type.\<close>

definition twin :: template where
  "twin =
     blank\<lparr>tid := ''twin'', species := ''Twin'', baseSpecies := ''Twin'',
       types := [''Grass'', ''Grass''], tier := ''OU'', gen := 1, color := ''Green''\<rparr>"

definition twin_catalog :: catalog where
  "twin_catalog =
     \<lparr>Pokedex = [''twin'', ''bulbasaur'', ''eggy''],
      getTemplate = (\<lambda>s. if s = ''twin'' \<or> s = ''Twin'' then twin
                          else if s = ''bulbasaur'' \<or> s = ''Bulbasaur'' then bulbasaur
                          else if s = ''eggy'' \<or> s = ''Eggy'' then eggy
                          else blank\<lparr>tid := toLowerCase s, species := s, baseSpecies := s\<rparr>),
      getMove = no_move,
      getAbility = no_ability,
      TypeChart = [''Grass'', ''Poison'', ''Normal''],
      lc_banlist = [],
      escapeHTML = escape_html\<rparr>"

section \<open>Properties\<close>

subsection \<open>The prevolution walk\<close>

lemma walks_on_code:
  "walks_on m link \<longleftrightarrow>
   prevo link \<noteq> [] \<and>
   (case learnset link of None \<Rightarrow> False | Some ls \<Rightarrow> \<not> learnset_has ls m)"
  by (auto simp: walks_on_def learnset_has_def split: option.splits)

lemma prevo_walk_unfold:
  "prevo_walk c m link =
     (if walks_on m link then prevo_walk c m (getTemplate c (prevo link)) else Some link)"
  by (subst prevo_walk.simps) (simp add: walks_on_code)

lemma prevo_walk_chain:
  assumes "(start, link) \<in> (walk_step c m)\<^sup>*" and "\<not> walks_on m link"
  shows "prevo_walk c m start = Some link"
  using assms
proof (induction rule: converse_rtrancl_induct)
  case base
  then show ?case by (simp add: prevo_walk_unfold)
next
  case (step a b)
  from step.hyps(1) have "walks_on m a" "b = getTemplate c (prevo a)"
    by (simp_all add: walk_step_def)
  with step.IH [OF step.prems] show ?case by (simp add: prevo_walk_unfold [of c m a])
qed



lemma chain_ends:
  assumes "wf (prevo_links c)" and "t \<in> range (getTemplate c)"
  shows "\<exists>link. (t, link) \<in> (walk_step c m)\<^sup>* \<and> \<not> walks_on m link"
  using assms
proof (induction t rule: wf_induct_rule)
  case (less t)
  show ?case
  proof (cases "walks_on m t")
    case True
    let ?p = "getTemplate c (prevo t)"
    from True less.prems have "(?p, t) \<in> prevo_links c"
      by (simp add: prevo_links_def walks_on_code)
    from less.IH [OF this] obtain link where
      "(?p, link) \<in> (walk_step c m)\<^sup>*" "\<not> walks_on m link" by blast
    moreover from True have "(t, ?p) \<in> walk_step c m" by (simp add: walk_step_def)
    ultimately show ?thesis by (blast intro: converse_rtrancl_into_rtrancl)
  next
    case False
    then show ?thesis by blast
  qed
qed

text \<open>
  C8. In a catalog with finitely many prevolution back-references that form no cycle, the
  walk of lines 550 to 552 ends from every template the catalog returns: it returns a
  link that is reached from the start by the steps of the loop, and that has no
  prevolution, no learnset, or a learnset that has the move.
\<close>

theorem prevo_walk_terminates:
  assumes "finite (prevo_links c)" and "acyclic (prevo_links c)"
  shows "\<exists>t. prevo_walk c m (getTemplate c i) = Some t \<and>
             (getTemplate c i, t) \<in> (walk_step c m)\<^sup>* \<and>
             (prevo t = [] \<or> learnset t = None \<or>
              (\<exists>ls. learnset t = Some ls \<and> learnset_has ls m))"
proof -
  have "wf (prevo_links c)" by (rule finite_acyclic_wf [OF assms])
  from chain_ends [OF this, of "getTemplate c i" m] obtain t where
    ch: "(getTemplate c i, t) \<in> (walk_step c m)\<^sup>*" and e: "\<not> walks_on m t" by blast
  from prevo_walk_chain [OF ch e] have "prevo_walk c m (getTemplate c i) = Some t" .
  moreover from e have "prevo t = [] \<or> learnset t = None \<or>
              (\<exists>ls. learnset t = Some ls \<and> learnset_has ls m)"
    by (auto simp: walks_on_code split: option.splits)
  ultimately show ?thesis using ch by blast
qed

lemma family_catalog_templates:
  "getTemplate family_catalog s = ivysaur \<or> prevo (getTemplate family_catalog s) = []"
  by (simp add: family_catalog_def bulbasaur_def eggy_def blank_def)

lemma family_catalog_links: "prevo_links family_catalog \<subseteq> {(bulbasaur, ivysaur)}"
proof
  fix x
  assume "x \<in> prevo_links family_catalog"
  then obtain s where x: "x = (getTemplate family_catalog (prevo (getTemplate family_catalog s)),
      getTemplate family_catalog s)" and p: "prevo (getTemplate family_catalog s) \<noteq> []"
    by (auto simp: prevo_links_def)
  from p family_catalog_templates [of s] have i: "getTemplate family_catalog s = ivysaur"
    by blast
  have "getTemplate family_catalog (prevo ivysaur) = bulbasaur"
    by (simp add: family_catalog_def ivysaur_def blank_def)
  with x i show "x \<in> {(bulbasaur, ivysaur)}" by simp
qed

lemma family_chain_acyclic: "acyclic {(bulbasaur, ivysaur)}"
proof -
  have ne: "bulbasaur \<noteq> ivysaur" by (simp add: bulbasaur_def ivysaur_def blank_def)
  have "(x, y) \<in> {(bulbasaur, ivysaur)}\<^sup>+ \<Longrightarrow> x = bulbasaur \<and> y = ivysaur" for x y
    by (induction rule: trancl_induct) auto
  with ne show ?thesis unfolding acyclic_def by blast
qed

theorem prevo_walk_terminates_witness:
  "finite (prevo_links family_catalog) \<and> acyclic (prevo_links family_catalog) \<and>
   (\<exists>t. prevo_walk family_catalog ''growl'' (getTemplate family_catalog ''Ivysaur'') = Some t \<and>
        (getTemplate family_catalog ''Ivysaur'', t) \<in> (walk_step family_catalog ''growl'')\<^sup>* \<and>
        (prevo t = [] \<or> learnset t = None \<or>
         (\<exists>ls. learnset t = Some ls \<and> learnset_has ls ''growl'')))"
proof -
  have f: "finite (prevo_links family_catalog)"
    by (rule finite_subset [OF family_catalog_links]) simp
  have a: "acyclic (prevo_links family_catalog)"
    by (rule acyclic_subset [OF family_chain_acyclic family_catalog_links])
  from f a prevo_walk_terminates [OF f a, of "''growl''" "''Ivysaur''"]
  show ?thesis by blast
qed

subsection \<open>The filters only delete\<close>

lemma moves_filter_cases:
  assumes "moves_filter c obj ((mon, t) # d) = Some (Ok d')"
  obtains r where "moves_filter c obj d = Some (Ok r)" and "d' = r \<or> d' = (mon, t) # r"
  using assms by (auto split: option.splits result.splits if_splits)

lemma moves_filter_subset:
  "moves_filter c obj d = Some (Ok d') \<Longrightarrow> set d' \<subseteq> set d"
proof (induction d arbitrary: d')
  case Nil
  then show ?case by simp
next
  case (Cons e d)
  obtain mon t where e: "e = (mon, t)" by (cases e)
  from Cons.prems obtain r where r: "moves_filter c obj d = Some (Ok r)"
    and d': "d' = r \<or> d' = e # r"
    unfolding e by (rule moves_filter_cases)
  from Cons.IH [OF r] d' show ?case by auto
qed

lemma pure_filters_subset: "set (pure_filters c st d) \<subseteq> set d"
  by (auto simp: pure_filters_def Let_def split: option.splits)

lemma search_dex_subset:
  "search_dex c st = Some (Ok d) \<Longrightarrow> set d \<subseteq> set (base_dex c st)"
  using pure_filters_subset [of c st]
  by (fastforce simp: search_dex_def split: option.splits result.splits
      dest: moves_filter_subset)

lemma base_dex_admitted:
  "(k, t) \<in> set (base_dex c st) \<Longrightarrow>
   k \<in> set (Pokedex c) \<and> t = getTemplate c k \<and> admitted st t"
  by (auto simp: base_dex_def)

lemma family_results_subset:
  "n \<in> set (family_results c d) \<Longrightarrow> \<exists>(k, t) \<in> set d. species t = n"
  by (auto simp: family_results_def Let_def)

lemma cap_requested_own:
  "cap_requested st \<Longrightarrow> \<exists>obj. s_tier st = Some obj \<and> map_of obj ''cap'' = Some True"
  by (auto simp: cap_requested_def truthy_def get_prop_def object_prototype_def
      split: option.splits)

lemma search_dex_names:
  assumes "search_dex c st = Some (Ok d)" and "n \<in> set (family_results c d)"
  shows "\<exists>k \<in> set (Pokedex c).
           species (getTemplate c k) = n \<and>
           tier (getTemplate c k) \<noteq> ''Unreleased'' \<and> tier (getTemplate c k) \<noteq> ''Illegal'' \<and>
           (tier (getTemplate c k) = ''CAP'' \<longrightarrow>
              (\<exists>obj. s_tier st = Some obj \<and> map_of obj ''cap'' = Some True))"
proof -
  from family_results_subset [OF assms(2)] obtain k t where
    kt: "(k, t) \<in> set d" and n: "species t = n" by auto
  from kt search_dex_subset [OF assms(1)] have "(k, t) \<in> set (base_dex c st)" by auto
  from base_dex_admitted [OF this] have k: "k \<in> set (Pokedex c)" and t: "t = getTemplate c k"
    and a: "admitted st t" by auto
  from a have "tier t \<noteq> ''Unreleased''" "tier t \<noteq> ''Illegal''"
    "tier t = ''CAP'' \<longrightarrow> cap_requested st"
    by (auto simp: admitted_def)
  with cap_requested_own [of st] k t n show ?thesis by blast
qed

lemma format_results_names:
  assumes "format_results h all results = ReplyBox msg"
    and "msg = Names s \<or> msg = AndMore s cnt"
    and "\<And>rs. set (randomize h rs) \<subseteq> set rs"
  shows "\<exists>names. s = join names \<and> set names \<subseteq> set results"
proof -
  from assms(1,2) consider "s = join (sort results)" | "s = join (take 10 (randomize h results))"
    by (auto simp: format_results_def split: if_splits option.splits)
  then show ?thesis
  proof cases
    case 1
    then show ?thesis by (intro exI [of _ "sort results"]) simp
  next
    case 2
    have "set (take 10 (randomize h results)) \<subseteq> set results"
      using set_take_subset [of 10 "randomize h results"] assms(3) [of results] by blast
    with 2 show ?thesis by blast
  qed
qed

subsection \<open>Where each reply comes from\<close>

lemma apply_request_Inl:
  assumes "apply_request h st r = Inl m"
  shows "m = OnlyOneAbility \<or> m = MaxFourMoves \<or> m = MaxTwoTypes \<or>
         (m = AllNotBroadcast \<and> r = ReqAll \<and> broadcasting h) \<or>
         (\<exists>cat. m = CannotBoth cat) \<or> (\<exists>x. m = NotInAnyCategory x)"
proof (cases r)
  case (Req cat k p)
  with assms show ?thesis
    by (cases cat) (auto simp: apply_request_def split: if_splits)
next
  case ReqAll
  with assms show ?thesis by (auto simp: apply_request_def split: if_splits)
next
  case (ReqUnknown x)
  with assms show ?thesis by (auto simp: apply_request_def)
qed

lemma read_targets_Inl:
  "read_targets c h st ts = Inl m \<Longrightarrow>
   m = OnlyOneAbility \<or> m = MaxFourMoves \<or> m = MaxTwoTypes \<or> m = AllNotBroadcast \<or>
   (\<exists>cat. m = CannotBoth cat) \<or> (\<exists>x. m = NotInAnyCategory x)"
proof (induction ts arbitrary: st)
  case Nil
  then show ?case by simp
next
  case (Cons raw ts)
  show ?case
  proof (cases "apply_request h st (classify c raw)")
    case (Inl m')
    with Cons.prems have "m' = m" by simp
    with apply_request_Inl [OF Inl] show ?thesis by blast
  next
    case (Inr st')
    with Cons.prems have "read_targets c h st' ts = Inl m" by simp
    from Cons.IH [OF this] show ?thesis .
  qed
qed

lemma moves_loop_Return:
  "moves_loop c template obj ks deleted = Some (Return m) \<Longrightarrow> \<exists>i. m = NotAKnownMove i"
  by (induction ks arbitrary: deleted)
     (auto simp: canLearn_def split: if_splits option.splits result.splits)

lemma moves_filter_Return:
  "moves_filter c obj d = Some (Return m) \<Longrightarrow> \<exists>i. m = NotAKnownMove i"
proof (induction d)
  case Nil
  then show ?case by simp
next
  case (Cons e d)
  obtain mon t where e: "e = (mon, t)" by (cases e)
  from Cons.prems consider
      "moves_loop c (moves_template c t) obj (map fst obj) False = Some (Return m)"
    | "moves_filter c obj d = Some (Return m)"
    unfolding e by (auto split: option.splits result.splits if_splits)
  then show ?case
    using moves_loop_Return Cons.IH by cases blast+
qed

lemma search_dex_Return:
  "search_dex c st = Some (Return m) \<Longrightarrow> \<exists>i. m = NotAKnownMove i"
  by (auto simp: search_dex_def split: option.splits result.splits dest: moves_filter_Return)

lemma format_results_cases:
  "format_results h all results = ReplyBox m \<Longrightarrow>
   m = NoPokemonFound \<or> (\<exists>s. m = Names s) \<or> (\<exists>s n. m = AndMore s n)"
  by (auto simp: format_results_def split: if_splits option.splits)

lemma dexsearch_listing:
  assumes "dexsearch c h target = Some (ReplyBox msg)"
    and "msg = Names s \<or> msg = AndMore s cnt"
  shows "\<exists>st d. read_targets c h init_pstate (split_comma target) = Inr st \<and>
                search_dex c st = Some (Ok d) \<and>
                format_results h (showAll st) (family_results c d) = ReplyBox msg"
proof (cases "read_targets c h init_pstate (split_comma target)")
  case (Inl m)
  with assms(1) have "m = msg"
    by (simp add: dexsearch_def split: if_splits)
  with read_targets_Inl [OF Inl] assms(2) show ?thesis by auto
next
  case (Inr st)
  show ?thesis
  proof (cases "search_dex c st")
    case None
    with Inr assms show ?thesis
      by (auto simp: dexsearch_def split: if_splits)
  next
    case (Some r)
    show ?thesis
    proof (cases r)
      case (Ok d)
      with Inr Some assms show ?thesis
        by (auto simp: dexsearch_def split: if_splits)
    next
      case (Return m)
      with search_dex_Return [of c st m] Inr Some assms show ?thesis
        by (auto simp: dexsearch_def split: if_splits)
    next
      case (Throw e)
      with Inr Some assms show ?thesis
        by (auto simp: dexsearch_def split: if_splits)
    qed
  qed
qed

text \<open>
  C7. Whatever the query, every name in the listing of dexsearch, sorted or sampled, is
  the name of a Pokedex entry whose tier is neither Unreleased nor Illegal, and whose tier
  is CAP only if the tier category of the query holds \<open>cap\<close> with the value true. No
  category predicate is needed for this: the base scan alone enforces it. The shuffle is
  taken to return names of its input.
\<close>

theorem dexsearch_output_admissible:
  assumes "\<And>rs. set (randomize h rs) \<subseteq> set rs"
    and "dexsearch c h target = Some (ReplyBox msg)"
    and "msg = Names s \<or> msg = AndMore s cnt"
  shows "\<exists>st names.
           read_targets c h init_pstate (split_comma target) = Inr st \<and> s = join names \<and>
           (\<forall>n \<in> set names. \<exists>k \<in> set (Pokedex c).
              species (getTemplate c k) = n \<and>
              tier (getTemplate c k) \<noteq> ''Unreleased'' \<and> tier (getTemplate c k) \<noteq> ''Illegal'' \<and>
              (tier (getTemplate c k) = ''CAP'' \<longrightarrow>
                 (\<exists>obj. s_tier st = Some obj \<and> map_of obj ''cap'' = Some True)))"
proof -
  from dexsearch_listing [OF assms(2,3)] obtain st d where
    st: "read_targets c h init_pstate (split_comma target) = Inr st"
    and d: "search_dex c st = Some (Ok d)"
    and f: "format_results h (showAll st) (family_results c d) = ReplyBox msg"
    by blast
  from format_results_names [OF f assms(3) assms(1)] obtain names where
    s: "s = join names" and sub: "set names \<subseteq> set (family_results c d)"
    by blast
  have "\<forall>n \<in> set names. \<exists>k \<in> set (Pokedex c).
          species (getTemplate c k) = n \<and>
          tier (getTemplate c k) \<noteq> ''Unreleased'' \<and> tier (getTemplate c k) \<noteq> ''Illegal'' \<and>
          (tier (getTemplate c k) = ''CAP'' \<longrightarrow>
             (\<exists>obj. s_tier st = Some obj \<and> map_of obj ''cap'' = Some True))"
    using sub search_dex_names [OF d] by blast
  with st s show ?thesis by blast
qed

lemma tier_catalog_not_mega:
  "dexsearch tier_catalog private_host ''all, !mega'' = Some (ReplyBox (Names ''Pikachu''))"
  by code_simp

theorem dexsearch_output_admissible_witness:
  "(\<forall>rs. set (randomize private_host rs) \<subseteq> set rs) \<and>
   dexsearch tier_catalog private_host ''all, !mega'' = Some (ReplyBox (Names ''Pikachu'')) \<and>
   (\<exists>st names.
      read_targets tier_catalog private_host init_pstate (split_comma ''all, !mega'') = Inr st \<and>
      ''Pikachu'' = join names \<and>
      (\<forall>n \<in> set names. \<exists>k \<in> set (Pokedex tier_catalog).
         species (getTemplate tier_catalog k) = n \<and>
         tier (getTemplate tier_catalog k) \<noteq> ''Unreleased'' \<and>
         tier (getTemplate tier_catalog k) \<noteq> ''Illegal'' \<and>
         (tier (getTemplate tier_catalog k) = ''CAP'' \<longrightarrow>
            (\<exists>obj. s_tier st = Some obj \<and> map_of obj ''cap'' = Some True))))"
proof -
  have r: "set (randomize private_host rs) \<subseteq> set rs" for rs
    by (simp add: private_host_def)
  from dexsearch_output_admissible [OF r tier_catalog_not_mega, of "''Pikachu''" "[]"]
    r tier_catalog_not_mega
  show ?thesis by blast
qed

subsection \<open>Species with no learnset\<close>

lemma moves_template_None:
  assumes "learnset (getTemplate c (tid t)) = None"
    and "learnset (getTemplate c (baseSpecies (getTemplate c (tid t)))) = None"
  shows "learnset (moves_template c t) = None"
  using assms by (simp add: moves_template_def)

lemma moves_filter_keeps:
  assumes "moves_filter c obj d = Some (Ok d')" and "(mon, t) \<in> set d"
    and "learnset (moves_template c t) = None"
  shows "(mon, t) \<in> set d'"
  using assms(1,2)
proof (induction d arbitrary: d')
  case Nil
  then show ?case by simp
next
  case (Cons e d)
  obtain mon' t' where e: "e = (mon', t')" by (cases e)
  from Cons.prems(1) obtain r where r: "moves_filter c obj d = Some (Ok r)"
    and d': "d' = r \<or> d' = e # r"
    unfolding e by (rule moves_filter_cases)
  show ?case
  proof (cases "e = (mon, t)")
    case True
    with Cons.prems(1) assms(3) r have "d' = e # r" by simp
    with True show ?thesis by simp
  next
    case False
    with Cons.prems(2) have "(mon, t) \<in> set d" by simp
    from Cons.IH [OF r this] d' show ?thesis by auto
  qed
qed

text \<open>
  C10. A species whose own template has no learnset, and whose base species' template
  has none either, passes the move filter untouched: its entry is handed on without a
  look at any move (the filter's result is that of the other entries with this one put
  back), so it is in every dex the move filter returns, whatever the polarities.
\<close>

theorem moves_filter_keeps_without_learnset:
  assumes "learnset (getTemplate c (tid t)) = None"
    and "learnset (getTemplate c (baseSpecies (getTemplate c (tid t)))) = None"
  shows "moves_filter c obj ((mon, t) # rest) =
           (case moves_filter c obj rest of
              Some (Ok r) \<Rightarrow> Some (Ok ((mon, t) # r))
            | other \<Rightarrow> other) \<and>
         (moves_filter c obj d = Some (Ok d') \<and> (mon, t) \<in> set d \<longrightarrow> (mon, t) \<in> set d')"
proof -
  note n = moves_template_None [OF assms]
  have "moves_filter c obj ((mon, t) # rest) =
          (case moves_filter c obj rest of
             Some (Ok r) \<Rightarrow> Some (Ok ((mon, t) # r))
           | other \<Rightarrow> other)"
    using n by (simp split: option.splits result.splits)
  moreover have "moves_filter c obj d = Some (Ok d') \<and> (mon, t) \<in> set d \<longrightarrow> (mon, t) \<in> set d'"
    using moves_filter_keeps [OF _ _ n] by blast
  ultimately show ?thesis by blast
qed

lemma family_catalog_sketch:
  "dexsearch family_catalog private_host ''sketch'' = Some (ReplyBox (Names ''Eggy''))"
  by code_simp

theorem moves_filter_keeps_without_learnset_witness:
  "learnset (getTemplate family_catalog (tid eggy)) = None \<and>
   learnset (getTemplate family_catalog (baseSpecies (getTemplate family_catalog (tid eggy)))) = None \<and>
   moves_filter family_catalog [(''Sketch'', True)] [(''eggy'', eggy)] =
     Some (Ok [(''eggy'', eggy)]) \<and>
   (''eggy'', eggy) \<in> set [(''eggy'', eggy)] \<and>
   dexsearch family_catalog private_host ''sketch'' = Some (ReplyBox (Names ''Eggy''))"
proof -
  have a: "learnset (getTemplate family_catalog (tid eggy)) = None"
    by (simp add: family_catalog_def eggy_def blank_def)
  have b: "learnset (getTemplate family_catalog
             (baseSpecies (getTemplate family_catalog (tid eggy)))) = None"
    by (simp add: family_catalog_def eggy_def blank_def)
  from moves_filter_keeps_without_learnset [OF a b, of "[(''Sketch'', True)]" "''eggy''" "[]"]
  have "moves_filter family_catalog [(''Sketch'', True)] [(''eggy'', eggy)] =
          Some (Ok [(''eggy'', eggy)])"
    by simp
  with a b family_catalog_sketch show ?thesis by simp
qed

subsection \<open>Polarities held by the state of the target loop\<close>

lemma map_of_put_own: "map_of (put_own obj k b) = (map_of obj)(k \<mapsto> b)"
  by (induction obj) (auto simp: fun_eq_iff)

lemma get_prop_set_other:
  "k' \<noteq> k \<Longrightarrow> get_prop (set_prop obj k' b) k = get_prop obj k"
  by (simp add: get_prop_def set_prop_def map_of_put_own)

lemma proto_inherited: "''__proto__'' \<in> set object_prototype"
  by (simp add: object_prototype_def)

lemma polar_set:
  assumes "\<not> conflict obj k isNot"
  shows "polar (set_prop obj k (\<not> isNot)) k isNot"
proof (cases "k = ''__proto__''")
  case True
  with assms proto_inherited show ?thesis
    by (auto simp: polar_def get_prop_def set_prop_def conflict_def truthy_def is_false_def
        split: option.splits)
next
  case False
  then show ?thesis
    by (simp add: polar_def get_prop_def set_prop_def map_of_put_own truthy_def is_false_def)
qed

lemma polar_kept:
  assumes "polar obj k p" and "\<not> conflict obj k' isNot"
  shows "polar (set_prop obj k' (\<not> isNot)) k p"
proof (cases "k' = k")
  case True
  with assms have "isNot = p"
    by (auto simp: polar_def conflict_def truthy_def is_false_def split: if_splits)
  with True polar_set [OF assms(2)] show ?thesis by simp
next
  case False
  with assms(1) show ?thesis by (simp add: polar_def get_prop_set_other)
qed

lemma polar_conflict: "polar obj k p \<Longrightarrow> conflict obj k (\<not> p)"
  by (auto simp: polar_def conflict_def truthy_def is_false_def split: if_splits)

lemma apply_request_Req:
  assumes "apply_request h st (Req cat k p) = Inr st'"
  shows "(case cat of
            Ability \<Rightarrow> \<not> conflict (obj_of (s_ability st)) k p \<and>
              st' = st\<lparr>s_ability := Some (set_prop (obj_of (s_ability st)) k (\<not> p))\<rparr>
          | Tier \<Rightarrow> \<not> conflict (obj_of (s_tier st)) k p \<and>
              st' = st\<lparr>s_tier := Some (set_prop (obj_of (s_tier st)) k (\<not> p))\<rparr>
          | Color \<Rightarrow> \<not> conflict (obj_of (s_color st)) k p \<and>
              st' = st\<lparr>s_color := Some (set_prop (obj_of (s_color st)) k (\<not> p))\<rparr>
          | Generation \<Rightarrow> \<not> conflict (obj_of (s_gen st)) k p \<and>
              st' = st\<lparr>s_gen := Some (set_prop (obj_of (s_gen st)) k (\<not> p))\<rparr>
          | Mega \<Rightarrow> \<not> flag_conflict (megaSearch st) p \<and> st' = st\<lparr>megaSearch := Some (\<not> p)\<rparr>
          | FullyEvolved \<Rightarrow> \<not> flag_conflict (feSearch st) p \<and> st' = st\<lparr>feSearch := Some (\<not> p)\<rparr>
          | Move \<Rightarrow> \<not> conflict (obj_of (s_moves st)) k p \<and>
              st' = st\<lparr>s_moves := Some (set_prop (obj_of (s_moves st)) k (\<not> p))\<rparr>
          | Type \<Rightarrow> \<not> conflict (obj_of (s_types st)) k p \<and>
              st' = st\<lparr>s_types := Some (set_prop (obj_of (s_types st)) k (\<not> p))\<rparr>)"
  using assms by (cases cat) (simp_all add: apply_request_def split: if_splits)

lemma apply_request_holds:
  "apply_request h st (Req cat k p) = Inr st' \<Longrightarrow> holds st' cat k p"
  by (drule apply_request_Req, cases cat)
     (simp_all add: holds_def cat_obj_def obj_of_def polar_set)

lemma apply_request_keeps_same:
  assumes "holds st cat k p" and "apply_request h st (Req cat k' p') = Inr st'"
  shows "holds st' cat k p"
  using assms(1) apply_request_Req [OF assms(2)]
  by (cases cat) (simp_all add: holds_def cat_obj_def obj_of_def polar_kept flag_conflict_def, auto)

lemma apply_request_keeps_other:
  assumes "holds st cat k p" and "apply_request h st (Req cat' k' p') = Inr st'"
    and "cat' \<noteq> cat"
  shows "holds st' cat k p"
  using assms(1,3) apply_request_Req [OF assms(2)]
  by (cases cat'; cases cat) (simp_all add: holds_def cat_obj_def)

lemma apply_request_keeps:
  assumes "holds st cat k p" and "apply_request h st r = Inr st'"
  shows "holds st' cat k p"
proof (cases r)
  case (Req cat' k' p')
  with assms show ?thesis
    by (cases "cat' = cat") (auto intro: apply_request_keeps_same apply_request_keeps_other)
next
  case ReqAll
  with assms show ?thesis
    by (cases cat) (auto simp: apply_request_def holds_def cat_obj_def split: if_splits)
next
  case (ReqUnknown x)
  with assms show ?thesis by (simp add: apply_request_def)
qed

lemma read_targets_keeps:
  "holds st cat k p \<Longrightarrow> read_targets c h st ts = Inr st' \<Longrightarrow> holds st' cat k p"
proof (induction ts arbitrary: st)
  case Nil
  then show ?case by simp
next
  case (Cons raw ts)
  from Cons.prems(2) obtain st1 where 1: "apply_request h st (classify c raw) = Inr st1"
    and 2: "read_targets c h st1 ts = Inr st'"
    by (auto split: sum.splits)
  from Cons.IH [OF apply_request_keeps [OF Cons.prems(1) 1] 2] show ?case .
qed

lemma read_targets_append:
  "read_targets c h st (xs @ ys) =
     (case read_targets c h st xs of Inl m \<Rightarrow> Inl m | Inr st' \<Rightarrow> read_targets c h st' ys)"
  by (induction xs arbitrary: st) (auto split: sum.splits)

lemma apply_request_conflict:
  assumes "holds st cat k p" and "\<not> cap_reached st cat (\<not> p)"
  shows "apply_request h st (Req cat k (\<not> p)) = Inl (CannotBoth cat)"
  using assms
  by (cases cat)
     (auto simp: apply_request_def holds_def cat_obj_def cap_reached_def polar_conflict
       flag_conflict_def)

lemma read_targets_conflict:
  assumes t1: "classify c t1 = Req cat k p"
    and t2: "classify c t2 = Req cat k (\<not> p)"
    and acc: "read_targets c h st0 (pre @ t1 # between) = Inr st"
    and cap: "\<not> cap_reached st cat (\<not> p)"
  shows "read_targets c h st0 (pre @ t1 # between @ t2 # post) = Inl (CannotBoth cat)"
proof -
  from acc obtain sa sb where a: "read_targets c h st0 pre = Inr sa"
    and b: "apply_request h sa (Req cat k p) = Inr sb"
    and m: "read_targets c h sb between = Inr st"
    by (auto simp: read_targets_append t1 split: sum.splits)
  have "holds st cat k p"
    by (rule read_targets_keeps [OF apply_request_holds [OF b] m])
  from apply_request_conflict [OF this cap]
  have "read_targets c h st (t2 # post) = Inl (CannotBoth cat)"
    by (simp add: t2)
  moreover have "pre @ t1 # between @ t2 # post = (pre @ t1 # between) @ t2 # post" by simp
  ultimately show ?thesis
    using acc by (simp only: read_targets_append) simp
qed

text \<open>
  C4, as the code has it. When a token requests a key of a category that an earlier,
  accepted token requested with the other polarity, every token before it is accepted,
  and the cardinality guard of the category does not fire at it, dexsearch replies that a
  search cannot both exclude and include. The first failing token decides the reply, so
  the order of the tokens matters.
\<close>

theorem conflicting_request_rejected:
  assumes "canBroadcast h" and "target \<noteq> []"
    and "split_comma target = pre @ t1 # between @ t2 # post"
    and "classify c t1 = Req cat k p" and "classify c t2 = Req cat k (\<not> p)"
    and "read_targets c h init_pstate (pre @ t1 # between) = Inr st"
    and "\<not> cap_reached st cat (\<not> p)"
  shows "dexsearch c h target = Some (ReplyBox (CannotBoth cat))"
  using read_targets_conflict [OF assms(4,5,6,7), of post] assms(1,2,3)
  by (simp add: dexsearch_def)

lemma family_catalog_types_classified:
  "split_comma ''!normal type,grass type,normal type'' =
     [] @ ''!normal type'' # [''grass type''] @ ''normal type'' # []"
  "classify family_catalog ''!normal type'' = Req Type ''Normal'' True"
  "classify family_catalog ''normal type'' = Req Type ''Normal'' (\<not> True)"
  "read_targets family_catalog private_host init_pstate ([] @ ''!normal type'' # [''grass type'']) =
     Inr (init_pstate\<lparr>s_types := Some [(''Normal'', False), (''Grass'', True)]\<rparr>)"
  "\<not> cap_reached (init_pstate\<lparr>s_types := Some [(''Normal'', False), (''Grass'', True)]\<rparr>)
       Type (\<not> True)"
  by code_simp+

theorem conflicting_request_rejected_witness:
  "canBroadcast private_host \<and> ''!normal type,grass type,normal type'' \<noteq> [] \<and>
   dexsearch family_catalog private_host ''!normal type,grass type,normal type'' =
     Some (ReplyBox (CannotBoth Type))"
proof -
  have "canBroadcast private_host" by (simp add: private_host_def)
  moreover have "''!normal type,grass type,normal type'' \<noteq> []" by simp
  ultimately show ?thesis
    using conflicting_request_rejected [OF _ _ family_catalog_types_classified]
    by blast
qed

theorem conflict_order_counterexample:
  "dexsearch family_catalog private_host
     ''grass type, poison type, !normal type, normal type'' = Some (ReplyBox MaxTwoTypes) \<and>
   dexsearch family_catalog private_host
     ''!normal type, normal type, grass type, poison type'' = Some (ReplyBox (CannotBoth Type))"
  by code_simp

subsection \<open>The parameter all in a broadcast\<close>

lemma all_is_no_keyword:
  "\<not> in_op ''all'' allTiers" "\<not> in_op ''all'' allColours" "parseInt ''all'' = None"
  by code_simp+

lemma classify_all_iff:
  "classify c raw = ReqAll \<longleftrightarrow> \<not> aexists (getAbility c raw) \<and> target_of raw = ''all''"
proof
  assume "classify c raw = ReqAll"
  then show "\<not> aexists (getAbility c raw) \<and> target_of raw = ''all''"
    by (simp add: classify_def Let_def split: if_splits option.splits)
next
  assume "\<not> aexists (getAbility c raw) \<and> target_of raw = ''all''"
  then show "classify c raw = ReqAll"
    by (simp add: classify_def Let_def all_is_no_keyword)
qed

lemma read_targets_all:
  "read_targets c h st ts = Inl AllNotBroadcast \<Longrightarrow>
   broadcasting h \<and>
   (\<exists>pre tok post st'. ts = pre @ tok # post \<and> read_targets c h st pre = Inr st' \<and>
      classify c tok = ReqAll)"
proof (induction ts arbitrary: st)
  case Nil
  then show ?case by simp
next
  case (Cons raw ts)
  show ?case
  proof (cases "apply_request h st (classify c raw)")
    case (Inl m)
    with Cons.prems have "m = AllNotBroadcast" by simp
    with apply_request_Inl [OF Inl] have "classify c raw = ReqAll" "broadcasting h" by auto
    moreover have "raw # ts = [] @ raw # ts" "read_targets c h st [] = Inr st" by simp_all
    ultimately show ?thesis by blast
  next
    case (Inr st1)
    with Cons.prems have "read_targets c h st1 ts = Inl AllNotBroadcast" by simp
    from Cons.IH [OF this] obtain pre tok post st' where b: "broadcasting h"
      and ts: "ts = pre @ tok # post" and p: "read_targets c h st1 pre = Inr st'"
      and a: "classify c tok = ReqAll" by blast
    have "raw # ts = (raw # pre) @ tok # post" using ts by simp
    moreover have "read_targets c h st (raw # pre) = Inr st'" using Inr p by simp
    ultimately show ?thesis using a b by blast
  qed
qed

lemma read_targets_all_rejected:
  assumes "broadcasting h" and "read_targets c h st pre = Inr st'" and "classify c tok = ReqAll"
  shows "read_targets c h st (pre @ tok # post) = Inl AllNotBroadcast"
  using assms by (simp add: read_targets_append apply_request_def)

lemma dexsearch_reply_parse:
  assumes "canBroadcast h" and "target \<noteq> []"
    and "m = AllNotBroadcast \<or> m = CannotBoth cat"
  shows "dexsearch c h target = Some (ReplyBox m) \<longleftrightarrow>
         read_targets c h init_pstate (split_comma target) = Inl m"
proof (cases "read_targets c h init_pstate (split_comma target)")
  case (Inl m')
  with assms(1,2) show ?thesis by (simp add: dexsearch_def)
next
  case (Inr st)
  have "dexsearch c h target \<noteq> Some (ReplyBox m)"
  proof (cases "search_dex c st")
    case None
    with Inr assms show ?thesis by (auto simp: dexsearch_def)
  next
    case (Some r)
    show ?thesis
    proof (cases r)
      case (Ok d)
      with format_results_cases [of h "showAll st" "family_results c d" m] Inr Some assms
      show ?thesis by (auto simp: dexsearch_def)
    next
      case (Return m')
      with search_dex_Return [of c st m'] Inr Some assms show ?thesis
        by (auto simp: dexsearch_def)
    next
      case (Throw e)
      with Inr Some assms show ?thesis by (auto simp: dexsearch_def)
    qed
  qed
  with Inr show ?thesis by simp
qed

text \<open>
  C3, as the code has it. In a command that may run, dexsearch replies that a search with
  the parameter \<open>all\<close> cannot be broadcast exactly when it is broadcasting and reaches a
  token \<open>all\<close> (one that is no ability name) after accepting every token before it; what
  the other tokens of the query are does not matter. The reply comes from the loop over
  the targets, so no species has been scanned.
\<close>

theorem all_not_broadcast_iff:
  assumes "canBroadcast h" and "target \<noteq> []"
  shows "dexsearch c h target = Some (ReplyBox AllNotBroadcast) \<longleftrightarrow>
         broadcasting h \<and>
         (\<exists>pre tok post st. split_comma target = pre @ tok # post \<and>
            read_targets c h init_pstate pre = Inr st \<and>
            \<not> aexists (getAbility c tok) \<and> target_of tok = ''all'')"
proof -
  have "dexsearch c h target = Some (ReplyBox AllNotBroadcast) \<longleftrightarrow>
        read_targets c h init_pstate (split_comma target) = Inl AllNotBroadcast"
    by (rule dexsearch_reply_parse [OF assms, of _ Ability]) simp
  also have "\<dots> \<longleftrightarrow> broadcasting h \<and>
         (\<exists>pre tok post st. split_comma target = pre @ tok # post \<and>
            read_targets c h init_pstate pre = Inr st \<and> classify c tok = ReqAll)"
    using read_targets_all [of c h init_pstate "split_comma target"]
      read_targets_all_rejected [of h c init_pstate]
    by metis
  finally show ?thesis by (simp only: classify_all_iff)
qed

lemma family_catalog_growl_all:
  "dexsearch family_catalog broadcast_host ''growl, all'' = Some (ReplyBox AllNotBroadcast)"
  by code_simp

theorem all_not_broadcast_iff_witness:
  "canBroadcast broadcast_host \<and> ''growl, all'' \<noteq> [] \<and>
   dexsearch family_catalog broadcast_host ''growl, all'' = Some (ReplyBox AllNotBroadcast) \<and>
   broadcasting broadcast_host \<and>
   (\<exists>pre tok post st. split_comma ''growl, all'' = pre @ tok # post \<and>
      read_targets family_catalog broadcast_host init_pstate pre = Inr st \<and>
      \<not> aexists (getAbility family_catalog tok) \<and> target_of tok = ''all'')"
proof -
  have a: "canBroadcast broadcast_host" by (simp add: broadcast_host_def)
  have b: "''growl, all'' \<noteq> []" by simp
  from all_not_broadcast_iff [OF a b, of family_catalog] family_catalog_growl_all a b
  show ?thesis by simp
qed

theorem all_with_predicate_counterexample:
  "classify family_catalog ''grass type'' = Req Type ''Grass'' False \<and>
   dexsearch family_catalog broadcast_host ''grass type, all'' =
     Some (ReplyBox AllNotBroadcast)"
  by code_simp

subsection \<open>The tier lc\<close>

lemma tier_deleted_lc_only:
  "tier_deleted c [(''lc'', True)] t \<longleftrightarrow>
   \<not> isLC c t \<or>
   (toLowerCase (tier t) \<noteq> ''lc'' \<and> toLowerCase (tier t) \<notin> set object_prototype)"
  by (auto simp: tier_deleted_def listed_deleted_def in_op_def get_prop_def truthy_def
      is_false_def count_true_def)

text \<open>
  C1. The comment of lines 506 and 507 says that the legality computed at line 508 stands
  in for the stored tier, but an entry that passes the test of line 509 still meets the
  tier check of lines 514 to 516. For the query \<open>lc\<close> a species that is legal in LC by
  line 508 and stored in the tier NU is deleted there: only the species stored as LC is
  listed.
\<close>

theorem lc_query_drops_lc_legal_species:
  "isLC lc_catalog ferroseed \<and> tier ferroseed = ''NU'' \<and>
   tier_deleted lc_catalog [(''lc'', True)] ferroseed \<and>
   dexsearch lc_catalog private_host ''lc'' = Some (ReplyBox (Names ''Bulbasaur''))"
  by code_simp

subsection \<open>The sampling branch\<close>

text \<open>
  C9. Two inputs on which dexsearch throws instead of replying. With more than ten results
  and no \<open>all\<close>, line 576 calls the identifier \<open>string\<close>, which nothing binds: a
  ReferenceError. With a species that lacks the move and whose prevolution has no
  learnset, the loop of line 550 stops at the prevolution and line 553 reads \<open>.sketch\<close>
  of its missing learnset: a TypeError.
\<close>

theorem dexsearch_throws:
  "dexsearch many_catalog private_host ''ou'' = Some (Throws ReferenceError) \<and>
   dexsearch orphan_catalog private_host ''growl'' = Some (Throws TypeError)"
  by code_simp

lemma take_ten: "output < length rs \<Longrightarrow> length (take 10 rs) = 10"
  by (simp add: output_def)

text \<open>
  C5, as the code has it. Past ten results and without \<open>all\<close>, the branch shuffles the
  results, takes the first ten names, and passes \<open>results.length - output\<close> to \<open>string\<close>:
  when \<open>string\<close> is bound, the note carries the number of results minus the number of
  names shown, which is the number of names left out.
\<close>

theorem sample_note_counts_omitted:
  assumes "\<not> all" and "output < length results" and "string_global h = Some string"
    and "length (randomize h results) = length results"
  shows "\<exists>shown. shown = take 10 (randomize h results) \<and> length shown = 10 \<and>
           format_results h all results =
             ReplyBox (AndMore (join shown)
                               (string (int (length results) - int (length shown))))"
  using assms take_ten [of "randomize h results"]
  by (auto simp: format_results_def output_def)

theorem sample_note_counts_omitted_witness:
  "\<not> False \<and> output < length [''Abra'', ''Bidoof'', ''Cubone'', ''Ditto'', ''Eevee'', ''Furret'', ''Golem'', ''Hypno'',
      ''Inkay'', ''Jynx'', ''Kabuto''] \<and>
   string_global decimal_host = Some decimal \<and>
   format_results decimal_host False
     [''Abra'', ''Bidoof'', ''Cubone'', ''Ditto'', ''Eevee'', ''Furret'', ''Golem'', ''Hypno'',
      ''Inkay'', ''Jynx'', ''Kabuto''] =
   ReplyBox (AndMore ''Abra, Bidoof, Cubone, Ditto, Eevee, Furret, Golem, Hypno, Inkay, Jynx'' ''1'')"
proof -
  let ?rs = "[''Abra'', ''Bidoof'', ''Cubone'', ''Ditto'', ''Eevee'', ''Furret'', ''Golem'', ''Hypno'',
      ''Inkay'', ''Jynx'', ''Kabuto'']"
  have a: "output < length ?rs" by (simp add: output_def)
  have b: "string_global decimal_host = Some decimal" by (simp add: decimal_host_def)
  have c: "length (randomize decimal_host ?rs) = length ?rs" by (simp add: decimal_host_def)
  have d: "randomize decimal_host ?rs = ?rs" by (simp add: decimal_host_def)
  have e: "decimal 1 = ''1''" by code_simp
  from sample_note_counts_omitted [OF _ a b c, of False] a b d e
  show ?thesis by simp
qed

theorem sample_note_counterexample:
  "dexsearch many_catalog decimal_host ''ou'' =
     Some (ReplyBox (AndMore ''Abra, Bidoof, Cubone, Ditto, Eevee, Furret, Golem, Hypno, Inkay, Jynx'' ''1'')) \<and>
   length (family_results many_catalog (base_dex many_catalog
     (init_pstate\<lparr>s_tier := Some [(''ou'', True)]\<rparr>))) - 10 = 1 \<and>
   dexsearch many_catalog private_host ''ou, 1'' = Some (Throws ReferenceError)"
  by code_simp

subsection \<open>The type filter\<close>

lemma upper_first_not_u:
  assumes "upper_first ch = Some u"
  shows "u \<noteq> [] \<and> hd u \<noteq> CHR ''u''"
proof -
  define n where "n = (of_char ch :: nat)"
  consider (letter) "(97 \<le> n \<and> n \<le> 122) \<or> (224 \<le> n \<and> n \<le> 254 \<and> n \<noteq> 247)"
    | (sharp) "\<not> ((97 \<le> n \<and> n \<le> 122) \<or> (224 \<le> n \<and> n \<le> 254 \<and> n \<noteq> 247))" "n = 223"
    | (other) "\<not> ((97 \<le> n \<and> n \<le> 122) \<or> (224 \<le> n \<and> n \<le> 254 \<and> n \<noteq> 247))" "n \<noteq> 223"
    by blast
  then show ?thesis
  proof cases
    case letter
    then have "upper_first ch = Some [char_of (n - 32)]"
      unfolding upper_first_def Let_def n_def by (rule if_P)
    with assms have u: "u = [char_of (n - 32)]" by simp
    have "char_of (n - 32) \<noteq> CHR ''u''"
    proof
      assume "char_of (n - 32) = CHR ''u''"
      then have "(of_char (char_of (n - 32) :: char) :: nat) = of_char CHR ''u''"
        by (rule arg_cong)
      then have "(n - 32) mod 256 = 117" by simp
      moreover from letter have "n - 32 < 256" by arith
      ultimately have "n - 32 = 117" by (simp only: mod_less)
      with letter show False by arith
    qed
    with u show ?thesis by simp
  next
    case sharp
    from sharp(1) have "upper_first ch =
        (if n = 223 then Some ''SS'' else if n = 181 \<or> n = 255 then None else Some [ch])"
      unfolding upper_first_def Let_def n_def by (rule if_not_P)
    with sharp(2) assms have "u = ''SS''" by simp
    then show ?thesis by simp
  next
    case other
    from other(1) have "upper_first ch =
        (if n = 223 then Some ''SS'' else if n = 181 \<or> n = 255 then None else Some [ch])"
      unfolding upper_first_def Let_def n_def by (rule if_not_P)
    with other(2) assms have u: "u = [ch]" by (simp split: if_splits)
    have "ch \<noteq> CHR ''u''"
    proof
      assume "ch = CHR ''u''"
      then have "n = 117" by (simp add: n_def)
      with other show False by arith
    qed
    with u show ?thesis by simp
  qed
qed

lemma type_target_not_undefined:
  assumes "type_target target = Some k" and "indexOf target '' type'' \<noteq> None"
  shows "k \<noteq> ''undefined''"
proof (cases target)
  case Nil
  with assms(2) show ?thesis by simp
next
  case (Cons ch rest)
  with assms(1) have "map_option
       (\<lambda>first. first @
          slice 1 (case indexOf target '' type'' of None \<Rightarrow> 0 | Some i \<Rightarrow> i) target)
       (upper_first ch) = Some k"
    by (simp add: type_target_def)
  then obtain u r where u: "upper_first ch = Some u" and "k = u @ r" by blast
  with upper_first_not_u [OF u] have "hd k \<noteq> CHR ''u''" by (cases u) auto
  then show ?thesis by auto
qed

lemma classify_Type:
  "classify c raw = Req Type k p \<Longrightarrow> k \<noteq> ''undefined''"
  by (auto simp: classify_def Let_def type_target_not_undefined
      split: if_splits option.splits)

lemma put_own_keys: "set (map fst (put_own obj k b)) = insert k (set (map fst obj))"
proof -
  have "fst ` set (put_own obj k b) = dom (map_of (put_own obj k b))"
    by (simp add: dom_map_of_conv_image_fst)
  also have "\<dots> = insert k (fst ` set obj)"
    by (simp add: map_of_put_own dom_map_of_conv_image_fst)
  finally show ?thesis by simp
qed

lemma put_own_distinct: "distinct (map fst obj) \<Longrightarrow> distinct (map fst (put_own obj k b))"
proof (induction obj)
  case Nil
  then show ?case by simp
next
  case (Cons e obj)
  obtain k' b' where e: "e = (k', b')" by (cases e)
  show ?case
  proof (cases "k' = k")
    case True
    with Cons.prems show ?thesis by (simp add: e)
  next
    case False
    with Cons.prems Cons.IH put_own_keys [of obj k b] show ?thesis by (simp add: e)
  qed
qed

lemma set_prop_keys: "set (map fst (set_prop obj k b)) \<subseteq> insert k (set (map fst obj))"
  using put_own_keys [of obj k b] by (auto simp: set_prop_def)

lemma set_prop_distinct: "distinct (map fst obj) \<Longrightarrow> distinct (map fst (set_prop obj k b))"
  by (simp add: set_prop_def put_own_distinct)

lemma apply_request_types:
  assumes "apply_request h st r = Inr st'"
  shows "s_types st' = s_types st \<or>
         (\<exists>k p. r = Req Type k p \<and> s_types st' = Some (set_prop (obj_of (s_types st)) k (\<not> p)))"
proof (cases r)
  case (Req cat k p)
  with assms show ?thesis
    by (cases cat) (auto simp: apply_request_def split: if_splits)
next
  case ReqAll
  with assms show ?thesis by (auto simp: apply_request_def split: if_splits)
next
  case (ReqUnknown x)
  with assms show ?thesis by (simp add: apply_request_def)
qed

lemma read_targets_types:
  assumes "read_targets c h st ts = Inr st'"
    and "distinct (map fst (obj_of (s_types st)))"
    and "''undefined'' \<notin> set (map fst (obj_of (s_types st)))"
  shows "distinct (map fst (obj_of (s_types st'))) \<and>
         ''undefined'' \<notin> set (map fst (obj_of (s_types st')))"
  using assms
proof (induction ts arbitrary: st)
  case Nil
  then show ?case by simp
next
  case (Cons raw ts)
  from Cons.prems(1) obtain st1 where 1: "apply_request h st (classify c raw) = Inr st1"
    and 2: "read_targets c h st1 ts = Inr st'"
    by (auto split: sum.splits)
  have "distinct (map fst (obj_of (s_types st1))) \<and>
        ''undefined'' \<notin> set (map fst (obj_of (s_types st1)))"
    using apply_request_types [OF 1]
  proof
    assume "s_types st1 = s_types st"
    with Cons.prems(2,3) show ?thesis by simp
  next
    assume "\<exists>k p. classify c raw = Req Type k p \<and>
              s_types st1 = Some (set_prop (obj_of (s_types st)) k (\<not> p))"
    then obtain k p where r: "classify c raw = Req Type k p"
      and s: "s_types st1 = Some (set_prop (obj_of (s_types st)) k (\<not> p))" by blast
    from classify_Type [OF r] set_prop_keys [of "obj_of (s_types st)" k "\<not> p"] Cons.prems(3)
    have "''undefined'' \<notin> set (map fst (set_prop (obj_of (s_types st)) k (\<not> p)))" by auto
    with set_prop_distinct [OF Cons.prems(2)] s show ?thesis by (simp add: obj_of_def)
  qed
  with Cons.IH [OF 2] show ?case by blast
qed

lemma read_targets_types_init:
  assumes "read_targets c h init_pstate ts = Inr st" and "s_types st = Some obj"
  shows "distinct (map fst obj)" and "''undefined'' \<notin> set (map fst obj)"
  using read_targets_types [OF assms(1)] assms(2)
  by (simp_all add: init_pstate_def obj_of_def)

lemma count_true_card:
  "distinct (map fst obj) \<Longrightarrow> count_true obj = card {k. map_of obj k = Some True}"
proof (induction obj)
  case Nil
  then show ?case by (simp add: count_true_def)
next
  case (Cons e obj)
  obtain k b where e: "e = (k, b)" by (cases e)
  from Cons.prems have k: "k \<notin> fst ` set obj" and d: "distinct (map fst obj)"
    by (auto simp: e)
  let ?S = "{k'. map_of obj k' = Some True}"
  have fin: "finite ?S"
    by (rule finite_subset [of _ "fst ` set obj"]) (auto dest: map_of_SomeD intro: rev_image_eqI)
  have kS: "k \<notin> ?S" using k by (auto dest: map_of_SomeD intro: rev_image_eqI)
  have "{k'. map_of (e # obj) k' = Some True} = (if b then insert k ?S else ?S)"
    using kS by (auto simp: e)
  then have "card {k'. map_of (e # obj) k' = Some True} = (if b then Suc (card ?S) else card ?S)"
    using fin kS by simp
  with Cons.IH [OF d] show ?case by (simp add: count_true_def e)
qed

lemma undefined_not_inherited: "''undefined'' \<notin> set object_prototype"
  by (simp add: object_prototype_def)

lemma truthy_own:
  "k \<notin> set object_prototype \<Longrightarrow> truthy (get_prop obj k) \<longleftrightarrow> map_of obj k = Some True"
  by (auto simp: truthy_def get_prop_def split: option.splits)

lemma is_false_own: "is_false (get_prop obj k) \<longleftrightarrow> map_of obj k = Some False"
  by (auto simp: is_false_def get_prop_def split: option.splits)

lemma map_of_not_key: "k \<notin> set (map fst obj) \<Longrightarrow> map_of obj k = None"
  by (simp add: map_of_eq_None_iff)

lemma pure_filters_iff:
  "(mon, t) \<in> set (pure_filters c st d) \<longleftrightarrow>
   (mon, t) \<in> set d \<and>
   \<not> (case s_types st of None \<Rightarrow> False | Some obj \<Rightarrow> types_deleted obj t) \<and>
   \<not> others_deleted c st t"
  by (auto simp: pure_filters_def others_deleted_def Let_def split: option.splits)

lemma types_kept_two:
  assumes "count_true obj = 2"
    and "truthy (get_prop obj ''undefined'') = False"
    and "set (types t) \<inter> set object_prototype = {}"
  shows "\<not> types_deleted obj t \<longleftrightarrow>
         2 \<le> length (types t) \<and> map_of obj (types t ! 0) = Some True \<and>
         map_of obj (types t ! 1) = Some True"
proof (cases "2 \<le> length (types t)")
  case True
  then have in0: "types t ! 0 \<in> set (types t)" and in1: "types t ! Suc 0 \<in> set (types t)"
    by (auto intro: nth_mem)
  with assms(3) have p: "types t ! 0 \<notin> set object_prototype"
    "types t ! Suc 0 \<notin> set object_prototype"
    by auto
  from True have "0 < length (types t)" "Suc 0 < length (types t)" by arith+
  then have slots: "type_slot t 0 = types t ! 0" "type_slot t (Suc 0) = types t ! 1"
    by (simp_all add: type_slot_def)
  from True show ?thesis
    by (simp add: types_deleted_def assms(1) slots truthy_own [OF p(1)] truthy_own [OF p(2)])
next
  case False
  then have "type_slot t (Suc 0) = ''undefined''" by (simp add: type_slot_def)
  with False assms(1,2) show ?thesis by (simp add: types_deleted_def)
qed

lemma types_deleted_other:
  assumes "count_true obj \<noteq> 2"
    and "map_of obj ''undefined'' = None"
    and "set (types t) \<inter> set object_prototype = {}"
  shows "types_deleted obj t \<longleftrightarrow>
         (\<exists>ty \<in> set (take 2 (types t)). map_of obj ty = Some False) \<or>
         (0 < count_true obj \<and> \<not> (\<exists>ty \<in> set (take 2 (types t)). map_of obj ty = Some True))"
proof -
  have u: "\<not> truthy (get_prop obj ''undefined'')" "\<not> is_false (get_prop obj ''undefined'')"
    using assms(2) by (simp_all add: truthy_own undefined_not_inherited is_false_own)
  consider (none) "types t = []" | (one) a where "types t = [a]"
    | (more) a b r where "types t = a # b # r"
    by (cases "types t"; cases "tl (types t)") auto
  then show ?thesis
  proof cases
    case none
    then have "type_slot t 0 = ''undefined''" "type_slot t (Suc 0) = ''undefined''"
      by (simp_all add: type_slot_def)
    with none u assms(1) show ?thesis by (simp add: types_deleted_def)
  next
    case one
    with assms(3) have a: "a \<notin> set object_prototype" by auto
    from one have "type_slot t 0 = a" "type_slot t (Suc 0) = ''undefined''"
      by (simp_all add: type_slot_def)
    with one u assms(1) show ?thesis
      by (auto simp: types_deleted_def truthy_own [OF a] is_false_own)
  next
    case more
    with assms(3) have a: "a \<notin> set object_prototype" and b: "b \<notin> set object_prototype"
      by auto
    from more have "type_slot t 0 = a" "type_slot t (Suc 0) = b"
      by (simp_all add: type_slot_def)
    with more assms(1) show ?thesis
      by (auto simp: types_deleted_def truthy_own [OF a] truthy_own [OF b] is_false_own)
  qed
qed

text \<open>
  C6, as the code has it. For the type category that the loop over the targets has built
  and a species none of whose types is named like a property of \<open>Object.prototype\<close>,
  an entry of the dex is kept by the filters after the move filter exactly when the other
  categories keep it and the type rule does. When exactly two types are held with the
  value true, the rule keeps a species exactly when it has two type slots and each holds
  one of those two types (a species of one type is deleted); for two slots that differ
  this is to say that the slots are those two types in either order. Otherwise the rule
  deletes a species exactly when one of its types is held with the value false, or some
  type is held with true and none of its types is.
\<close>

theorem types_filter_decides:
  assumes "read_targets c h init_pstate ts = Inr st" and "s_types st = Some obj"
    and "set (types t) \<inter> set object_prototype = {}"
  shows "(card {k. map_of obj k = Some True} = 2 \<longrightarrow>
            ((mon, t) \<in> set (pure_filters c st d) \<longleftrightarrow>
               (mon, t) \<in> set d \<and> \<not> others_deleted c st t \<and>
               2 \<le> length (types t) \<and>
               types t ! 0 \<in> {k. map_of obj k = Some True} \<and>
               types t ! 1 \<in> {k. map_of obj k = Some True}) \<and>
            (2 \<le> length (types t) \<and> types t ! 0 \<noteq> types t ! 1 \<longrightarrow>
               (types t ! 0 \<in> {k. map_of obj k = Some True} \<and>
                types t ! 1 \<in> {k. map_of obj k = Some True} \<longleftrightarrow>
                {types t ! 0, types t ! 1} = {k. map_of obj k = Some True}))) \<and>
         (card {k. map_of obj k = Some True} \<noteq> 2 \<longrightarrow>
            ((mon, t) \<in> set (pure_filters c st d) \<longleftrightarrow>
               (mon, t) \<in> set d \<and> \<not> others_deleted c st t \<and>
               \<not> ((\<exists>ty \<in> set (take 2 (types t)). map_of obj ty = Some False) \<or>
                  (0 < card {k. map_of obj k = Some True} \<and>
                   \<not> (\<exists>ty \<in> set (take 2 (types t)). map_of obj ty = Some True)))))"
proof -
  let ?S = "{k. map_of obj k = Some True}"
  note cnt = count_true_card [OF read_targets_types_init(1) [OF assms(1,2)]]
  note u = map_of_not_key [OF read_targets_types_init(2) [OF assms(1,2)]]
  have tu: "truthy (get_prop obj ''undefined'') = False"
    using u by (simp add: truthy_own undefined_not_inherited)
  have pf: "(mon, t) \<in> set (pure_filters c st d) \<longleftrightarrow>
            (mon, t) \<in> set d \<and> \<not> types_deleted obj t \<and> \<not> others_deleted c st t"
    by (simp add: pure_filters_iff assms(2))
  have two: "{a, b} = ?S" if "card ?S = 2" "a \<in> ?S" "b \<in> ?S" "a \<noteq> b" for a b
  proof -
    from that have "{a, b} \<subseteq> ?S" by simp
    moreover have "finite ?S" using that(1) by (simp add: card_ge_0_finite)
    moreover have "card {a, b} = card ?S" using that by simp
    ultimately show ?thesis using card_subset_eq [of ?S "{a, b}"] by blast
  qed
  have A: "card ?S = 2 \<longrightarrow>
            ((mon, t) \<in> set (pure_filters c st d) \<longleftrightarrow>
               (mon, t) \<in> set d \<and> \<not> others_deleted c st t \<and>
               2 \<le> length (types t) \<and> types t ! 0 \<in> ?S \<and> types t ! 1 \<in> ?S)"
    using types_kept_two [OF _ tu assms(3)] by (auto simp: pf cnt)
  have B: "card ?S = 2 \<longrightarrow> 2 \<le> length (types t) \<and> types t ! 0 \<noteq> types t ! 1 \<longrightarrow>
             (types t ! 0 \<in> ?S \<and> types t ! 1 \<in> ?S \<longleftrightarrow> {types t ! 0, types t ! 1} = ?S)"
    using two [of "types t ! 0" "types t ! 1"] by blast
  have C: "card ?S \<noteq> 2 \<longrightarrow>
            ((mon, t) \<in> set (pure_filters c st d) \<longleftrightarrow>
               (mon, t) \<in> set d \<and> \<not> others_deleted c st t \<and>
               \<not> ((\<exists>ty \<in> set (take 2 (types t)). map_of obj ty = Some False) \<or>
                  (0 < card ?S \<and>
                   \<not> (\<exists>ty \<in> set (take 2 (types t)). map_of obj ty = Some True))))"
    using types_deleted_other [OF _ u assms(3)] by (auto simp: pf cnt)
  from A B C show ?thesis by blast
qed

lemma family_catalog_two_types:
  "read_targets family_catalog private_host init_pstate [''grass type'', ''poison type''] =
     Inr (init_pstate\<lparr>s_types := Some [(''Grass'', True), (''Poison'', True)]\<rparr>)"
  "pure_filters family_catalog
     (init_pstate\<lparr>s_types := Some [(''Grass'', True), (''Poison'', True)]\<rparr>)
     [(''bulbasaur'', bulbasaur), (''ivysaur'', ivysaur), (''eggy'', eggy)] =
   [(''bulbasaur'', bulbasaur), (''ivysaur'', ivysaur)]"
  "dexsearch family_catalog private_host ''grass type, poison type'' =
     Some (ReplyBox (Names ''Bulbasaur, Ivysaur''))"
  by code_simp+

theorem types_filter_decides_witness:
  "read_targets family_catalog private_host init_pstate [''grass type'', ''poison type''] =
     Inr (init_pstate\<lparr>s_types := Some [(''Grass'', True), (''Poison'', True)]\<rparr>) \<and>
   set (types bulbasaur) \<inter> set object_prototype = {} \<and>
   card {k. map_of [(''Grass'', True), (''Poison'', True)] k = Some True} = 2 \<and>
   pure_filters family_catalog
     (init_pstate\<lparr>s_types := Some [(''Grass'', True), (''Poison'', True)]\<rparr>)
     [(''bulbasaur'', bulbasaur), (''ivysaur'', ivysaur), (''eggy'', eggy)] =
   [(''bulbasaur'', bulbasaur), (''ivysaur'', ivysaur)] \<and>
   2 \<le> length (types bulbasaur) \<and>
   types bulbasaur ! 0 \<in> {k. map_of [(''Grass'', True), (''Poison'', True)] k = Some True} \<and>
   types bulbasaur ! 1 \<in> {k. map_of [(''Grass'', True), (''Poison'', True)] k = Some True} \<and>
   dexsearch family_catalog private_host ''grass type, poison type'' =
     Some (ReplyBox (Names ''Bulbasaur, Ivysaur''))"
proof -
  let ?obj = "[(''Grass'', True), (''Poison'', True)]"
  let ?st = "init_pstate\<lparr>s_types := Some ?obj\<rparr>"
  let ?d = "[(''bulbasaur'', bulbasaur), (''ivysaur'', ivysaur), (''eggy'', eggy)]"
  note a = family_catalog_two_types(1)
  have b: "s_types ?st = Some ?obj" by simp
  have e: "set (types bulbasaur) \<inter> set object_prototype = {}"
    by (simp add: bulbasaur_def blank_def object_prototype_def)
  have "distinct (map fst ?obj)" by simp
  then have "count_true ?obj = card {k. map_of ?obj k = Some True}"
    by (rule count_true_card)
  moreover have "count_true ?obj = 2" by (simp add: count_true_def)
  ultimately have f: "card {k. map_of ?obj k = Some True} = 2" by (rule trans [OF sym])
  have g: "(''bulbasaur'', bulbasaur) \<in> set (pure_filters family_catalog ?st ?d)"
    by (simp only: family_catalog_two_types(2)) simp
  from types_filter_decides [OF a b e, of "''bulbasaur''" ?d] f g
  have "2 \<le> length (types bulbasaur) \<and>
        types bulbasaur ! 0 \<in> {k. map_of ?obj k = Some True} \<and>
        types bulbasaur ! 1 \<in> {k. map_of ?obj k = Some True}"
    by blast
  with a e f family_catalog_two_types(2,3) show ?thesis by blast
qed

theorem same_type_twice_counterexample:
  "types twin = [''Grass'', ''Grass''] \<and>
   read_targets twin_catalog private_host init_pstate (split_comma ''grass type,poison type'') =
     Inr (init_pstate\<lparr>s_types := Some [(''Grass'', True), (''Poison'', True)]\<rparr>) \<and>
   dexsearch twin_catalog private_host ''grass type,poison type'' =
     Some (ReplyBox (Names ''Bulbasaur, Twin''))"
  by code_simp

subsection \<open>The move filter\<close>











end
